theory Spec2Isabelle
  imports Complex_Main
begin

section \<open>Data model\<close>

text \<open>
  The embedding follows \<open>Orb.ts\<close> and \<open>scene/SceneManager.ts\<close>. A JavaScript
  \<open>number\<close> is read as a real: the theorems below are about the formulas of the code
  over the reals, not about the rounding of IEEE doubles. Objects of the rendering
  library are heap cells addressed by their \<open>id\<close>; the heap is a total function and
  \<open>next_id\<close> is the allocation counter, so a reference never dangles.
\<close>

type_synonym ref = nat

datatype Vector3 = Vector3 (vec_x: real) (vec_y: real) (vec_z: real)

text \<open>\<open>Vector3.setScalar(s)\<close>: all three components become \<open>s\<close>.\<close>

definition setScalar :: "real \<Rightarrow> Vector3" where
  "setScalar s = Vector3 s s s"

record Euler =
  euler_x :: real
  euler_y :: real
  euler_z :: real

datatype Color = ColorHex string | ColorNum nat | Scaled Color real

datatype Geometry = IcosahedronGeometry real nat | SphereGeometry real nat nat

datatype MaterialType = MeshStandardMaterial | MeshBasicMaterial

text \<open>
  The material properties the program sets or relies on. A JavaScript object takes any
  property that is assigned to it, so one record serves both material classes.
\<close>

record Material =
  mat_type :: MaterialType
  mat_color :: Color
  metalness :: real
  roughness :: real
  emissive :: Color
  emissiveIntensity :: real
  transparent :: bool
  opacity :: real
  envMapIntensity :: real

record Props =
  obj_id :: ref
  parent :: "ref option"
  position :: Vector3
  rotation :: Euler
  scale :: Vector3
  geometry :: Geometry
  material :: Material
  breatheBase :: "real option"

text \<open>
  A mesh with the meshes attached to it by \<open>add\<close>. The scene graph of the library is a
  tree, so the children are held by value; \<open>obj_id\<close> gives every node its identity and
  \<open>parent\<close> is the back pointer the pick handler reads.
\<close>

datatype Mesh = Mesh (props: Props) (children: "Mesh list")

record Heap =
  cells :: "ref \<Rightarrow> Mesh"
  next_id :: ref

definition upd_props :: "ref \<Rightarrow> (Props \<Rightarrow> Props) \<Rightarrow> Heap \<Rightarrow> Heap" where
  "upd_props r f h =
     h\<lparr>cells := (cells h)(r := Mesh (f (props (cells h r))) (children (cells h r)))\<rparr>"

section \<open>Orb\<close>

record Orb =
  label :: string
  color :: Color
  radius :: real
  orbitRadius :: real
  speed :: real
  phase :: real
  mesh :: ref

text \<open>The fields of the mesh an Orb owns, read through its reference.\<close>

definition mesh_props :: "Heap \<Rightarrow> Orb \<Rightarrow> Props" where
  "mesh_props h this = props (cells h (mesh this))"

text \<open>
  Library defaults of a freshly constructed mesh: no parent, position and rotation zero,
  scale one, empty \<open>userData\<close>; of a standard material: metalness 0, roughness 1, black
  emissive colour with intensity 1, opaque.
\<close>

definition new_Mesh :: "ref \<Rightarrow> Geometry \<Rightarrow> Material \<Rightarrow> Mesh" where
  "new_Mesh i geo mat =
     Mesh \<lparr>obj_id = i, parent = None, position = Vector3 0 0 0,
           rotation = \<lparr>euler_x = 0, euler_y = 0, euler_z = 0\<rparr>,
           scale = Vector3 1 1 1, geometry = geo, material = mat,
           breatheBase = None\<rparr> []"

definition default_Material :: "MaterialType \<Rightarrow> Material" where
  "default_Material ty =
     \<lparr>mat_type = ty, mat_color = ColorNum 16777215, metalness = 0, roughness = 1,
      emissive = ColorNum 0, emissiveIntensity = 1, transparent = False, opacity = 1,
      envMapIntensity = 1\<rparr>"

text \<open>\<open>parent.add(child)\<close> on two fresh meshes: the child is appended and gets its back pointer.\<close>

definition add_child :: "Mesh \<Rightarrow> Mesh \<Rightarrow> Mesh" where
  "add_child m c =
     Mesh (props m) (children m @ [Mesh ((props c)\<lparr>parent := Some (obj_id (props m))\<rparr>) (children c)])"

text \<open>
  The constructor. The two draws of \<open>Math.random()\<close> are the parameters \<open>rnd1\<close> and
  \<open>rnd2\<close>; an omitted argument is \<open>None\<close> and takes the default of the signature. The body
  mesh is allocated first and the glow shell second.
\<close>

definition new_Orb ::
  "string \<Rightarrow> string \<Rightarrow> real option \<Rightarrow> real option \<Rightarrow> real \<Rightarrow> real \<Rightarrow> Heap \<Rightarrow> Orb \<times> Heap" where
  "new_Orb lbl colorHex orbitRadius_arg radius_arg rnd1 rnd2 h =
     (let orbitRadius0 = (case orbitRadius_arg of None \<Rightarrow> 150 | Some v \<Rightarrow> v);
          radius0 = (case radius_arg of None \<Rightarrow> 18 | Some v \<Rightarrow> v);
          col = ColorHex colorHex;
          geo = IcosahedronGeometry radius0 3;
          mat = (default_Material MeshStandardMaterial)
                  \<lparr>mat_color := col, metalness := 0.3, roughness := 0.25,
                   emissive := Scaled col 0.04, transparent := True, opacity := 0.98,
                   envMapIntensity := 0.6\<rparr>;
          body = new_Mesh (next_id h) geo mat;
          ringGeo = SphereGeometry (radius0 * 1.6) 24 24;
          ringMat = (default_Material MeshBasicMaterial)
                  \<lparr>mat_color := col, transparent := True, opacity := 0.06\<rparr>;
          ring = new_Mesh (next_id h + 1) ringGeo ringMat;
          this = \<lparr>label = lbl, color = col, radius = radius0, orbitRadius = orbitRadius0,
                  speed = 0.2 + rnd1 * 0.5, phase = rnd2 * pi * 2, mesh = next_id h\<rparr>
      in (this, \<lparr>cells = (cells h)(next_id h := add_child body ring),
                 next_id = next_id h + 2\<rparr>))"

definition setOrbit :: "Orb \<Rightarrow> real \<Rightarrow> Heap \<Rightarrow> Heap" where
  "setOrbit this timeSec h =
     (let t = timeSec * (speed this * 0.2) + phase this;
          x = cos t * orbitRadius this;
          z = sin t * orbitRadius this * 0.7;
          y = sin (t * 0.6 + phase this) * (orbitRadius this * 0.12)
      in upd_props (mesh this)
           (\<lambda>p. p\<lparr>position := Vector3 x y z,
                  rotation := (rotation p)\<lparr>euler_y := t * 0.6, euler_x := t * 0.3\<rparr>\<rparr>) h)"

definition setHover :: "Orb \<Rightarrow> bool \<Rightarrow> Heap \<Rightarrow> Heap" where
  "setHover this on h =
     (let targetScale = (if on then 1.28 else 1.0)
      in upd_props (mesh this)
           (\<lambda>p. p\<lparr>scale := setScalar targetScale,
                  material := (material p)\<lparr>emissiveIntensity := (if on then 1.6 else 0.4),
                                           roughness := (if on then 0.1 else 0.25)\<rparr>\<rparr>) h)"

definition expand :: "Orb \<Rightarrow> Heap \<Rightarrow> Heap" where
  "expand this h = upd_props (mesh this) (\<lambda>p. p\<lparr>scale := setScalar 1.6\<rparr>) h"

section \<open>Rendering library\<close>

text \<open>
  Modelled from the spec: the ray caster, the camera projection and the camera controls
  belong to the rendering library, which is not part of the repository. The spec says of
  them: "cast a ray from the camera through the current normalized pointer position;
  intersect against all Orb bodies (including child glow shells); if any intersection
  exists, select the nearest intersected object". What the library computes from the
  geometry is a parameter: \<open>raycast ray cells m\<close> lists the distances at which the ray
  meets the node \<open>m\<close> itself, \<open>project\<close> maps a world position to normalized device
  coordinates, \<open>update_controls\<close> is the damping step of the camera controls.
\<close>

type_synonym Vector2 = "real \<times> real"

record Camera =
  fov :: real
  aspect :: real
  near :: real
  far :: real
  cam_position :: Vector3

text \<open>A ray is determined by the pointer coordinates and the camera it was set from.\<close>

type_synonym Ray = "Vector2 \<times> Camera"

record Lib =
  raycast :: "Ray \<Rightarrow> (ref \<Rightarrow> Mesh) \<Rightarrow> Mesh \<Rightarrow> real list"
  project :: "Vector3 \<Rightarrow> Camera \<Rightarrow> Vector3"
  update_controls :: "Camera \<Rightarrow> Camera"

definition setFromCamera :: "Vector2 \<Rightarrow> Camera \<Rightarrow> Ray" where
  "setFromCamera coords cam = (coords, cam)"

record Intersection =
  distance :: real
  object :: Mesh

text \<open>
  Modelled from the spec: the library's \<open>intersectObject(s)\<close>. Every node that is tested
  contributes one intersection per distance at which the ray meets it; with \<open>recursive\<close>
  the descendants are tested too; the result is sorted by distance, nearest first (the
  sort is stable).
\<close>

fun intersect :: "(Mesh \<Rightarrow> real list) \<Rightarrow> bool \<Rightarrow> Mesh \<Rightarrow> Intersection list" where
  "intersect rc recursive (Mesh p cs) =
     map (\<lambda>d. \<lparr>distance = d, object = Mesh p cs\<rparr>) (rc (Mesh p cs))
     @ (if recursive then concat (map (intersect rc recursive) cs) else [])"

definition intersectObjects :: "(Mesh \<Rightarrow> real list) \<Rightarrow> Mesh list \<Rightarrow> bool \<Rightarrow> Intersection list" where
  "intersectObjects rc objects recursive =
     sort_key distance (concat (map (intersect rc recursive) objects))"

definition intersectObject :: "(Mesh \<Rightarrow> real list) \<Rightarrow> Mesh \<Rightarrow> bool \<Rightarrow> Intersection list" where
  "intersectObject rc obj recursive = sort_key distance (intersect rc recursive obj)"

section \<open>SceneManager\<close>

record OrbDef =
  def_label :: string
  def_color :: string
  def_orbit :: real
  def_radius :: "real option"

datatype Light =
    AmbientLight nat real
  | DirectionalLight nat real Vector3
  | PointLight nat real real Vector3

datatype SceneChild = LightChild Light | MeshChild ref

datatype CssLength = Px real

record HTMLElement =
  tagName :: string
  className :: string
  innerText :: string
  style_left :: "CssLength option"
  style_top :: "CssLength option"
  style_opacity :: string
  style_transform :: string

record Renderer =
  pixelRatio :: real
  size :: "real \<times> real"
  clearColor :: "nat \<times> real"

record Controls =
  enablePan :: bool
  minDistance :: real
  maxDistance :: real
  autoRotate :: bool
  enableDamping :: bool
  dampingFactor :: real

text \<open>The browser window as the handlers read it.\<close>

record Window =
  innerWidth :: real
  innerHeight :: real
  devicePixelRatio :: real

record PointerEvent =
  clientX :: real
  clientY :: real

record DOMRect =
  rect_left :: real
  rect_top :: real
  rect_width :: real
  rect_height :: real

datatype error = TypeError

text \<open>
  The driver. \<open>raycaster\<close> is the ray last set (\<open>None\<close> before the first
  \<open>setFromCamera\<close>); \<open>elements\<close>, \<open>next_el\<close> and \<open>body\<close> are the DOM: the
  elements created so far and the children of \<open>document.body\<close>; \<open>selected\<close> is the
  trace of the calls of \<open>onSelect\<close>, oldest first.
\<close>

record SceneManager =
  renderer :: Renderer
  scene_id :: ref
  scene_children :: "SceneChild list"
  camera :: Camera
  controls :: Controls
  raycaster :: "Ray option"
  mouse :: Vector2
  heap :: Heap
  orbs :: "Orb list"
  domLabels :: "ref list"
  elements :: "ref \<Rightarrow> HTMLElement"
  next_el :: ref
  body :: "ref list"
  selected :: "Orb list"

definition new_HTMLElement :: "string \<Rightarrow> HTMLElement" where
  "new_HTMLElement tag =
     \<lparr>tagName = tag, className = [], innerText = [], style_left = None,
      style_top = None, style_opacity = [], style_transform = []\<rparr>"

text \<open>\<open>scene.add(mesh)\<close> for a mesh in the heap: the back pointer is set and the scene lists it.\<close>

definition scene_add :: "ref \<Rightarrow> SceneManager \<Rightarrow> SceneManager" where
  "scene_add r s =
     s\<lparr>heap := upd_props r (\<lambda>p. p\<lparr>parent := Some (scene_id s)\<rparr>) (heap s),
       scene_children := scene_children s @ [MeshChild r]\<rparr>"

definition addNucleus :: "SceneManager \<Rightarrow> SceneManager" where
  "addNucleus s =
     (let geo = SphereGeometry 38 32 32;
          mat = (default_Material MeshStandardMaterial)
                  \<lparr>mat_color := ColorNum 399654, metalness := 0.1, roughness := 0.6,
                   emissive := ColorNum 1029027, emissiveIntensity := 0.06\<rparr>;
          i = next_id (heap s);
          s1 = s\<lparr>heap := \<lparr>cells = (cells (heap s))(i := new_Mesh i geo mat), next_id = i + 1\<rparr>\<rparr>;
          s2 = scene_add i s1
      in s2\<lparr>heap := upd_props i (\<lambda>p. p\<lparr>breatheBase := Some 1\<rparr>) (heap s2)\<rparr>)"

definition addOrb :: "OrbDef \<Rightarrow> real \<Rightarrow> real \<Rightarrow> SceneManager \<Rightarrow> SceneManager" where
  "addOrb d rnd1 rnd2 s =
     (let (orb, h) = new_Orb (def_label d) (def_color d) (Some (def_orbit d))
                       (Some (case def_radius d of None \<Rightarrow> 18 | Some r \<Rightarrow> r)) rnd1 rnd2 (heap s);
          s1 = s\<lparr>heap := h, orbs := orbs s @ [orb]\<rparr>;
          s2 = scene_add (mesh orb) s1;
          lbl = (new_HTMLElement ''div'')\<lparr>className := ''orbLabel'', innerText := def_label d\<rparr>
      in s2\<lparr>elements := (elements s2)(next_el s2 := lbl),
            next_el := next_el s2 + 1,
            body := body s2 @ [next_el s2],
            domLabels := domLabels s2 @ [next_el s2]\<rparr>)"

definition onResize :: "Window \<Rightarrow> SceneManager \<Rightarrow> SceneManager" where
  "onResize w s =
     s\<lparr>camera := (camera s)\<lparr>aspect := innerWidth w / innerHeight w\<rparr>,
       renderer := (renderer s)\<lparr>size := (innerWidth w, innerHeight w)\<rparr>\<rparr>"

definition onPointerMove :: "PointerEvent \<Rightarrow> DOMRect \<Rightarrow> SceneManager \<Rightarrow> SceneManager" where
  "onPointerMove ev rect s =
     s\<lparr>mouse := (((clientX ev - rect_left rect) / rect_width rect) * 2 - 1,
                 - ((clientY ev - rect_top rect) / rect_height rect) * 2 + 1)\<rparr>"

text \<open>
  The pick on press. \<open>o.mesh === mesh\<close> compares references, that is ids;
  \<open>mesh.parent === o.mesh\<close> reads the back pointer of the object that was hit.
  \<open>pick_ray\<close> is the ray \<open>setFromCamera\<close> sets and \<open>pick\<close> the list \<open>intersects\<close>.
\<close>

definition pick_ray :: "SceneManager \<Rightarrow> Ray" where
  "pick_ray s = setFromCamera (mouse s) (camera s)"

definition pick :: "Lib \<Rightarrow> SceneManager \<Rightarrow> Intersection list" where
  "pick lib s =
     intersectObjects (raycast lib (pick_ray s) (cells (heap s)))
       (map (\<lambda>orb. cells (heap s) (mesh orb)) (orbs s)) True"

definition onPointerDown :: "Lib \<Rightarrow> SceneManager \<Rightarrow> SceneManager" where
  "onPointerDown lib s =
     (let s1 = s\<lparr>raycaster := Some (pick_ray s)\<rparr>;
          intersects = pick lib s
      in case intersects of
           [] \<Rightarrow> s1
         | i # _ \<Rightarrow>
             (let m = object i
              in case find (\<lambda>ob. mesh ob = obj_id (props m) \<or> parent (props m) = Some (mesh ob))
                        (orbs s) of
                   None \<Rightarrow> s1
                 | Some orb \<Rightarrow> s1\<lparr>heap := expand orb (heap s1), selected := selected s1 @ [orb]\<rparr>))"

text \<open>
  The nucleus breathing: \<open>scene.traverse\<close> visits every object of the scene and rescales
  those whose \<open>userData.breatheBase\<close> is truthy (set and not zero). The lights and the
  scene itself carry no \<open>userData\<close>.
\<close>

fun breathe :: "real \<Rightarrow> Mesh \<Rightarrow> Mesh" where
  "breathe t (Mesh p cs) =
     Mesh (if breatheBase p \<noteq> None \<and> breatheBase p \<noteq> Some 0
           then p\<lparr>scale := setScalar (1 + sin (t * 0.6) * 0.04)\<rparr> else p)
          (map (breathe t) cs)"

definition traverse_breathe :: "real \<Rightarrow> SceneChild list \<Rightarrow> Heap \<Rightarrow> Heap" where
  "traverse_breathe t cs h =
     fold (\<lambda>c h. case c of LightChild _ \<Rightarrow> h
                  | MeshChild r \<Rightarrow> h\<lparr>cells := (cells h)(r := breathe t (cells h r))\<rparr>) cs h"

text \<open>
  The body of \<open>orbs.forEach((orb, i) => ...)\<close>. A mesh added to the scene has the scene,
  which is never transformed, as parent, so its world position is its position. Reading
  \<open>domLabels[i]\<close> out of range gives \<open>undefined\<close>, and setting a style on it throws.
\<close>

definition update_orb :: "Lib \<Rightarrow> Window \<Rightarrow> real \<Rightarrow> Orb \<Rightarrow> nat \<Rightarrow> SceneManager \<Rightarrow> error + SceneManager" where
  "update_orb lib w t orb i s =
     (let h1 = setOrbit orb t (heap s);
          ray = setFromCamera (mouse s) (camera s);
          intersects = intersectObject (raycast lib ray (cells h1)) (cells h1 (mesh orb)) True;
          hover = (length intersects > 0);
          h2 = setHover orb hover h1;
          worldPos = position (props (cells h2 (mesh orb)));
          projected = project lib worldPos (camera s);
          x = (vec_x projected * 0.5 + 0.5) * innerWidth w;
          y = (- vec_y projected * 0.5 + 0.5) * innerHeight w
      in if i < length (domLabels s)
         then let l = domLabels s ! i
              in Inr (s\<lparr>heap := h2, raycaster := Some ray,
                        elements := (elements s)(l := (elements s l)
                          \<lparr>style_left := Some (Px x), style_top := Some (Px y),
                           style_opacity := (if hover then ''1'' else ''0.86''),
                           style_transform :=
                             (if hover then ''translate(-50%,-140%) scale(1.02)''
                              else ''translate(-50%,-140%) scale(1)'')\<rparr>)\<rparr>)
         else Inl TypeError)"

fun update_orbs :: "Lib \<Rightarrow> Window \<Rightarrow> real \<Rightarrow> nat \<Rightarrow> Orb list \<Rightarrow> SceneManager \<Rightarrow> error + SceneManager" where
  "update_orbs lib w t i [] s = Inr s"
| "update_orbs lib w t i (orb # rest) s =
     (case update_orb lib w t orb i s of
        Inl e \<Rightarrow> Inl e
      | Inr s' \<Rightarrow> update_orbs lib w t (i + 1) rest s')"

text \<open>
  One frame at clock time \<open>t\<close>. \<open>requestAnimationFrame\<close> only schedules the next frame
  and rendering changes nothing the driver holds.
\<close>

definition tick :: "Lib \<Rightarrow> Window \<Rightarrow> real \<Rightarrow> SceneManager \<Rightarrow> error + SceneManager" where
  "tick lib w t s =
     (let s1 = s\<lparr>heap := traverse_breathe t (scene_children s) (heap s)\<rparr>
      in case update_orbs lib w t 0 (orbs s1) s1 of
           Inl e \<Rightarrow> Inl e
         | Inr s2 \<Rightarrow> Inr (s2\<lparr>camera := update_controls lib (camera s2)\<rparr>))"

text \<open>The six definitions of the constructor.\<close>

definition defs :: "OrbDef list" where
  "defs =
     [\<lparr>def_label = ''Hyperfocus'', def_color = ''#FF7AA2'', def_orbit = 180, def_radius = None\<rparr>,
      \<lparr>def_label = ''Ideas'', def_color = ''#8AE3FF'', def_orbit = 230, def_radius = None\<rparr>,
      \<lparr>def_label = ''Tasks'', def_color = ''#FFD57A'', def_orbit = 140, def_radius = None\<rparr>,
      \<lparr>def_label = ''Memory'', def_color = ''#C2A1FF'', def_orbit = 200, def_radius = None\<rparr>,
      \<lparr>def_label = ''Random'', def_color = ''#7AF7B8'', def_orbit = 260, def_radius = None\<rparr>,
      \<lparr>def_label = ''Projects'', def_color = ''#FFB48F'', def_orbit = 320, def_radius = None\<rparr>]"

text \<open>
  The driver before the first Orb is added: renderer, scene, camera, lights and controls
  as the constructor sets them. The scene takes the first id; the cells of the heap
  beyond \<open>next_id\<close> are not allocated yet and their content is never read. Registering
  the event listeners is what makes the handlers steps of a session (\<open>step\<close> below).
\<close>

definition init :: "Window \<Rightarrow> SceneManager" where
  "init w =
     \<lparr>renderer = \<lparr>pixelRatio = min (devicePixelRatio w) 2,
                  size = (innerWidth w, innerHeight w), clearColor = (462888, 1)\<rparr>,
      scene_id = 0,
      scene_children =
        [LightChild (AmbientLight 16777215 0.18),
         LightChild (DirectionalLight 16777215 0.7 (Vector3 120 200 100)),
         LightChild (PointLight 1029027 0.18 1000 (Vector3 (-100) (-80) 200))],
      camera = \<lparr>fov = 50, aspect = innerWidth w / innerHeight w, near = 0.1, far = 3000,
                cam_position = Vector3 0 80 420\<rparr>,
      controls = \<lparr>enablePan = False, minDistance = 200, maxDistance = 900,
                  autoRotate = False, enableDamping = True, dampingFactor = 0.06\<rparr>,
      raycaster = None,
      mouse = (0, 0),
      heap = \<lparr>cells = (\<lambda>i. new_Mesh i (SphereGeometry 1 32 16) (default_Material MeshBasicMaterial)),
              next_id = 1\<rparr>,
      orbs = [],
      domLabels = [],
      elements = (\<lambda>_. new_HTMLElement []),
      next_el = 0,
      body = [],
      selected = []\<rparr>"

text \<open>
  \<open>defs.forEach(d => this.addOrb(d))\<close>. \<open>Math.random()\<close> is a stream \<open>rnd\<close> of
  draws; every Orb consumes the next two.
\<close>

fun addOrbs :: "OrbDef list \<Rightarrow> (nat \<Rightarrow> real) \<Rightarrow> nat \<Rightarrow> SceneManager \<Rightarrow> SceneManager" where
  "addOrbs [] rnd k s = s"
| "addOrbs (d # ds) rnd k s = addOrbs ds rnd (k + 2) (addOrb d (rnd k) (rnd (k + 1)) s)"

text \<open>The constructor: the Orbs, the nucleus, and the first frame at clock time \<open>t0\<close>.\<close>

definition new_SceneManager ::
  "Lib \<Rightarrow> Window \<Rightarrow> (nat \<Rightarrow> real) \<Rightarrow> real \<Rightarrow> error + SceneManager" where
  "new_SceneManager lib w rnd t0 = tick lib w t0 (addNucleus (addOrbs defs rnd 0 (init w)))"

text \<open>
  The states of a session. The constructor's steps are steps of their own, so every
  state the driver passes through is covered, with any definitions and any random draws.
\<close>

inductive step :: "SceneManager \<Rightarrow> SceneManager \<Rightarrow> bool" where
  step_addOrb: "step s (addOrb d rnd1 rnd2 s)"
| step_addNucleus: "step s (addNucleus s)"
| step_onResize: "step s (onResize w s)"
| step_onPointerMove: "step s (onPointerMove ev rect s)"
| step_onPointerDown: "step s (onPointerDown lib s)"
| step_tick: "tick lib w t s = Inr s' \<Longrightarrow> step s s'"

inductive reachable :: "SceneManager \<Rightarrow> bool" where
  reachable_init: "reachable (init w)"
| reachable_step: "reachable s \<Longrightarrow> step s s' \<Longrightarrow> reachable s'"

section \<open>What a pick ray meets\<close>

text \<open>A mesh and all its descendants, the nodes a recursive intersection tests.\<close>

fun nodes :: "Mesh \<Rightarrow> Mesh list" where
  "nodes (Mesh p cs) = Mesh p cs # concat (map nodes cs)"

text \<open>The distances at which the ray of a press meets one node.\<close>

definition hits :: "Lib \<Rightarrow> SceneManager \<Rightarrow> Mesh \<Rightarrow> real list" where
  "hits lib s m = raycast lib (pick_ray s) (cells (heap s)) m"

text \<open>The ray of a press meets the body of some Orb or something attached to it.\<close>

definition orb_hit :: "Lib \<Rightarrow> SceneManager \<Rightarrow> bool" where
  "orb_hit lib s \<longleftrightarrow>
     (\<exists>ob\<in>set (orbs s). \<exists>m\<in>set (nodes (cells (heap s) (mesh ob))). hits lib s m \<noteq> [])"

text \<open>
  The mesh \<open>addNucleus\<close> put into the scene: the scene holds the lights, the meshes of
  the Orbs and the nucleus, so the nucleus is the mesh of the scene that is no Orb's.
\<close>

definition is_nucleus :: "SceneManager \<Rightarrow> ref \<Rightarrow> bool" where
  "is_nucleus s n \<longleftrightarrow>
     MeshChild n \<in> set (scene_children s) \<and> n \<notin> mesh ` set (orbs s)"

section \<open>A concrete session\<close>

text \<open>
  The inputs the theorems are run on: a window, a stream of random draws, and a
  library whose ray meets the nucleus (id 13) at distance 1 and, behind it, the glow
  shell (id 2) and the body (id 1) of the first Orb at distances 2 and 3; one whose ray
  meets the nucleus alone; one whose ray meets nothing. \<open>ex_session\<close> is the driver the
  constructor returns with them; \<open>tasks_orb\<close> is the Orb of the scenario of the spec,
  built alone.
\<close>

definition ex_window :: Window where
  "ex_window = \<lparr>innerWidth = 800, innerHeight = 600, devicePixelRatio = 1\<rparr>"

definition ex_rnds :: "nat \<Rightarrow> real" where
  "ex_rnds k = real (k mod 12) / 12"

definition ex_lib :: Lib where
  "ex_lib = \<lparr>raycast = (\<lambda>ray cs m. if obj_id (props m) = 13 then [1]
                                     else if obj_id (props m) = 2 then [2]
                                     else if obj_id (props m) = 1 then [3] else []),
              project = (\<lambda>v cam. v), update_controls = (\<lambda>cam. cam)\<rparr>"

definition ex_lib_nucleus :: Lib where
  "ex_lib_nucleus = \<lparr>raycast = (\<lambda>ray cs m. if obj_id (props m) = 13 then [1] else []),
                      project = (\<lambda>v cam. v), update_controls = (\<lambda>cam. cam)\<rparr>"

definition ex_lib_miss :: Lib where
  "ex_lib_miss = \<lparr>raycast = (\<lambda>ray cs m. []), project = (\<lambda>v cam. v),
                   update_controls = (\<lambda>cam. cam)\<rparr>"

definition ex_built :: SceneManager where
  "ex_built = addNucleus (addOrbs defs ex_rnds 0 (init ex_window))"

definition ex_session :: SceneManager where
  "ex_session = (case new_SceneManager ex_lib ex_window ex_rnds 0 of
                   Inr s \<Rightarrow> s | Inl e \<Rightarrow> ex_built)"

definition tasks_def :: OrbDef where
  "tasks_def = \<lparr>def_label = ''Tasks'', def_color = ''#FFD57A'', def_orbit = 140, def_radius = None\<rparr>"

definition tasks_heap0 :: Heap where
  "tasks_heap0 = heap (init ex_window)"

definition tasks_orb :: Orb where
  "tasks_orb = fst (new_Orb ''Tasks'' ''#FFD57A'' (Some 140) None (3/5) (5/8) tasks_heap0)"

definition tasks_heap :: Heap where
  "tasks_heap = snd (new_Orb ''Tasks'' ''#FFD57A'' (Some 140) None (3/5) (5/8) tasks_heap0)"

section \<open>Invariants of the driver\<close>

text \<open>
  What the constructor of an Orb and \<open>scene.add\<close> establish for the mesh of an Orb:
  it carries its own id, hangs below the scene, and each child (the glow shell) points
  back to it, has no children and an id that is no mesh of the scene. \<open>shape\<close> is the part of
  a mesh these facts are about: its id, its parent, and id, parent and leafness of each child.
\<close>

definition shape :: "Mesh \<Rightarrow> ref \<times> ref option \<times> (ref \<times> ref option \<times> bool) list" where
  "shape m = (obj_id (props m), parent (props m),
              map (\<lambda>c. (obj_id (props c), parent (props c), children c = [])) (children m))"

definition mesh_ok :: "ref \<Rightarrow> ref \<Rightarrow> ref set \<Rightarrow> ref \<Rightarrow> Mesh \<Rightarrow> bool" where
  "mesh_ok scn bound ids r m \<longleftrightarrow>
     (case shape m of (i, p, cs) \<Rightarrow>
        i = r \<and> p = Some scn \<and>
        (\<forall>(ci, cp, leaf)\<in>set cs. cp = Some r \<and> leaf \<and> ci < bound \<and> ci \<notin> ids))"

text \<open>What a frame or an event handler leaves as it is.\<close>

definition keeps :: "SceneManager \<Rightarrow> SceneManager \<Rightarrow> bool" where
  "keeps s s' \<longleftrightarrow>
     orbs s' = orbs s \<and> domLabels s' = domLabels s \<and> scene_id s' = scene_id s \<and>
     scene_children s' = scene_children s \<and>
     next_id (heap s') = next_id (heap s) \<and> next_el s' = next_el s \<and>
     (\<forall>l. innerText (elements s' l) = innerText (elements s l)) \<and>
     (\<forall>r. shape (cells (heap s') r) = shape (cells (heap s) r))"

definition scene_meshes :: "SceneManager \<Rightarrow> ref set" where
  "scene_meshes s = {r. MeshChild r \<in> set (scene_children s)}"

definition wf_scene :: "SceneManager \<Rightarrow> bool" where
  "wf_scene s \<longleftrightarrow>
     scene_id s < next_id (heap s) \<and> distinct (map mesh (orbs s)) \<and>
     (\<forall>r\<in>scene_meshes s. r < next_id (heap s)) \<and>
     (\<forall>ob\<in>set (orbs s). mesh ob \<noteq> scene_id s \<and> mesh ob \<in> scene_meshes s \<and>
        mesh_ok (scene_id s) (next_id (heap s)) (scene_meshes s) (mesh ob)
          (cells (heap s) (mesh ob)))"

definition labels_ok :: "SceneManager \<Rightarrow> bool" where
  "labels_ok s \<longleftrightarrow>
     distinct (domLabels s) \<and> (\<forall>l\<in>set (domLabels s). l < next_el s) \<and>
     map (\<lambda>l. innerText (elements s l)) (domLabels s) = map label (orbs s)"

section \<open>Orb: basic facts\<close>

lemma props_upd_props_same [simp]:
  "props (cells (upd_props r f h) r) = f (props (cells h r))"
  by (simp add: upd_props_def)

lemma children_upd_props [simp]:
  "children (cells (upd_props r f h) q) = children (cells h q)"
  by (simp add: upd_props_def)

lemma cells_upd_props_other [simp]:
  "q \<noteq> r \<Longrightarrow> cells (upd_props r f h) q = cells h q"
  by (simp add: upd_props_def)

lemma next_id_upd_props [simp]: "next_id (upd_props r f h) = next_id h"
  by (simp add: upd_props_def)

section \<open>Frames and handlers keep the shape of the scene\<close>

lemma mesh_ok_shape: "shape m' = shape m \<Longrightarrow> mesh_ok scn b ids r m' = mesh_ok scn b ids r m"
  by (simp add: mesh_ok_def)

lemma mesh_okD:
  "mesh_ok scn b ids r m \<Longrightarrow>
     obj_id (props m) = r \<and> parent (props m) = Some scn \<and>
     (\<forall>c\<in>set (children m). parent (props c) = Some r \<and> children c = [] \<and>
        obj_id (props c) < b \<and> obj_id (props c) \<notin> ids)"
  by (simp add: mesh_ok_def shape_def)

lemma breathe_sel:
  "obj_id (props (breathe t c)) = obj_id (props c)"
  "parent (props (breathe t c)) = parent (props c)"
  "(children (breathe t c) = []) = (children c = [])"
  by (cases c, simp)+

lemma shape_breathe: "shape (breathe t m) = shape m"
  by (cases m) (simp add: shape_def comp_def breathe_sel)

lemma shape_upd_props:
  "(\<And>p. obj_id (f p) = obj_id p \<and> parent (f p) = parent p) \<Longrightarrow>
   shape (cells (upd_props r f h) q) = shape (cells h q)"
  by (simp add: upd_props_def shape_def)

lemma shape_setOrbit: "shape (cells (setOrbit ob t h) q) = shape (cells h q)"
  unfolding setOrbit_def Let_def by (rule shape_upd_props) simp

lemma shape_setHover: "shape (cells (setHover ob b h) q) = shape (cells h q)"
  unfolding setHover_def Let_def by (rule shape_upd_props) simp

lemma shape_expand: "shape (cells (expand ob h) q) = shape (cells h q)"
  unfolding expand_def by (rule shape_upd_props) simp

lemma next_id_setOrbit: "next_id (setOrbit ob t h) = next_id h"
  by (simp add: setOrbit_def Let_def)

lemma next_id_setHover: "next_id (setHover ob b h) = next_id h"
  by (simp add: setHover_def Let_def)

lemma next_id_expand: "next_id (expand ob h) = next_id h"
  by (simp add: expand_def)

lemma traverse_breathe_keeps:
  "next_id (traverse_breathe t cs h) = next_id h \<and>
   (\<forall>r. shape (cells (traverse_breathe t cs h) r) = shape (cells h r))"
proof (induction cs arbitrary: h)
  case Nil
  show ?case by (simp add: traverse_breathe_def)
next
  case (Cons c cs)
  show ?case
  proof (cases c)
    case (LightChild x)
    thus ?thesis using Cons [of h] by (simp add: traverse_breathe_def)
  next
    case (MeshChild q)
    let ?h = "h\<lparr>cells := (cells h)(q := breathe t (cells h q))\<rparr>"
    have "traverse_breathe t (c # cs) h = traverse_breathe t cs ?h"
      using MeshChild by (simp add: traverse_breathe_def)
    moreover have "next_id ?h = next_id h" by simp
    moreover have "\<forall>r. shape (cells ?h r) = shape (cells h r)"
      by (simp add: shape_breathe)
    ultimately show ?thesis using Cons [of ?h] by simp
  qed
qed

lemma keeps_refl: "keeps s s"
  by (simp add: keeps_def)

lemma keeps_trans: "keeps s s' \<Longrightarrow> keeps s' s'' \<Longrightarrow> keeps s s''"
  by (simp add: keeps_def)


lemma update_orb_keeps: "update_orb lib w t ob i s = Inr s' \<Longrightarrow> keeps s s'"
  by (auto simp: update_orb_def Let_def keeps_def shape_setOrbit shape_setHover
        next_id_setOrbit next_id_setHover split: if_splits)

lemma update_orbs_keeps: "update_orbs lib w t i obs s = Inr s' \<Longrightarrow> keeps s s'"
proof (induction obs arbitrary: i s)
  case Nil
  thus ?case by (simp add: keeps_refl)
next
  case (Cons ob obs)
  then obtain s1 where 1: "update_orb lib w t ob i s = Inr s1"
    and 2: "update_orbs lib w t (i + 1) obs s1 = Inr s'"
    by (auto split: sum.splits)
  show ?case using update_orb_keeps [OF 1] Cons.IH [OF 2] by (rule keeps_trans)
qed

lemma tick_keeps: "tick lib w t s = Inr s' \<Longrightarrow> keeps s s'"
proof -
  assume a: "tick lib w t s = Inr s'"
  let ?s1 = "s\<lparr>heap := traverse_breathe t (scene_children s) (heap s)\<rparr>"
  from a obtain s2 where 1: "update_orbs lib w t 0 (orbs s) ?s1 = Inr s2"
    and 2: "s' = s2\<lparr>camera := update_controls lib (camera s2)\<rparr>"
    by (auto simp: tick_def Let_def split: sum.splits)
  have "keeps s ?s1" using traverse_breathe_keeps [of t "scene_children s" "heap s"]
    by (simp add: keeps_def)
  moreover have "keeps s2 s'" using 2 by (simp add: keeps_def)
  ultimately show ?thesis using update_orbs_keeps [OF 1] keeps_trans by blast
qed

lemma onPointerDown_cases:
  "onPointerDown lib s = s\<lparr>raycaster := Some (pick_ray s)\<rparr> \<or>
   (\<exists>ob\<in>set (orbs s). onPointerDown lib s =
      s\<lparr>raycaster := Some (pick_ray s), heap := expand ob (heap s),
        selected := selected s @ [ob]\<rparr>)"
  by (auto simp: onPointerDown_def Let_def find_Some_iff split: list.splits option.splits)

lemma onPointerDown_keeps: "keeps s (onPointerDown lib s)"
  using onPointerDown_cases [of lib s]
  by (auto simp: keeps_def shape_expand next_id_expand)

lemma onResize_keeps: "keeps s (onResize w s)"
  by (simp add: keeps_def onResize_def)

lemma onPointerMove_keeps: "keeps s (onPointerMove ev rect s)"
  by (simp add: keeps_def onPointerMove_def)

lemma wf_keeps:
  assumes "wf_scene s" and "keeps s s'"
  shows "wf_scene s'"
proof -
  from assms(2) have eq: "orbs s' = orbs s" "scene_id s' = scene_id s"
      "next_id (heap s') = next_id (heap s)" "scene_meshes s' = scene_meshes s"
    and sh: "\<And>r. shape (cells (heap s') r) = shape (cells (heap s) r)"
    by (simp_all add: keeps_def scene_meshes_def)
  have "\<And>r. mesh_ok (scene_id s) (next_id (heap s)) (scene_meshes s) r (cells (heap s') r)
          = mesh_ok (scene_id s) (next_id (heap s)) (scene_meshes s) r (cells (heap s) r)"
    by (rule mesh_ok_shape) (rule sh)
  with assms(1) show ?thesis
    by (simp add: wf_scene_def eq)
qed

lemma labels_ok_keeps: "labels_ok s \<Longrightarrow> keeps s s' \<Longrightarrow> labels_ok s'"
  unfolding labels_ok_def keeps_def by simp

section \<open>The invariants hold in every state of a session\<close>

lemma mesh_ok_mono:
  assumes "mesh_ok scn b ids r m" and "b \<le> b'" and "\<forall>i\<in>ids'. i \<in> ids \<or> b \<le> i"
  shows "mesh_ok scn b' ids' r m"
proof -
  obtain i p cs where sh: "shape m = (i, p, cs)"
    by (cases "shape m") auto
  from assms(1) have 1: "i = r" "p = Some scn"
    and 2: "\<And>ci cp leaf. (ci, cp, leaf) \<in> set cs \<Longrightarrow>
              cp = Some r \<and> leaf \<and> ci < b \<and> ci \<notin> ids"
    by (auto simp: mesh_ok_def sh)
  have "\<And>ci cp leaf. (ci, cp, leaf) \<in> set cs \<Longrightarrow>
          cp = Some r \<and> leaf \<and> ci < b' \<and> ci \<notin> ids'"
  proof -
    fix ci cp leaf assume a: "(ci, cp, leaf) \<in> set cs"
    from 2 [OF a] have 3: "cp = Some r" "leaf" "ci < b" "ci \<notin> ids" by simp_all
    have "ci \<notin> ids'"
    proof
      assume "ci \<in> ids'"
      with assms(3) have "ci \<in> ids \<or> b \<le> ci" by blast
      with 3 show False by simp
    qed
    with 3 assms(2) show "cp = Some r \<and> leaf \<and> ci < b' \<and> ci \<notin> ids'" by simp
  qed
  thus ?thesis by (auto simp: mesh_ok_def sh 1)
qed

lemma addOrb_fields:
  "\<exists>ob. orbs (addOrb d r1 r2 s) = orbs s @ [ob] \<and> mesh ob = next_id (heap s) \<and>
        label ob = def_label d \<and> orbitRadius ob = def_orbit d"
  "domLabels (addOrb d r1 r2 s) = domLabels s @ [next_el s]"
  "next_el (addOrb d r1 r2 s) = next_el s + 1"
  "innerText (elements (addOrb d r1 r2 s) l) =
     (if l = next_el s then def_label d else innerText (elements s l))"
  "scene_id (addOrb d r1 r2 s) = scene_id s"
  "next_id (heap (addOrb d r1 r2 s)) = next_id (heap s) + 2"
  "q \<noteq> next_id (heap s) \<Longrightarrow> cells (heap (addOrb d r1 r2 s)) q = cells (heap s) q"
  "shape (cells (heap (addOrb d r1 r2 s)) (next_id (heap s))) =
     (next_id (heap s), Some (scene_id s), [(next_id (heap s) + 1, Some (next_id (heap s)), True)])"
  "scene_children (addOrb d r1 r2 s) = scene_children s @ [MeshChild (next_id (heap s))]"
  by (simp_all add: addOrb_def new_Orb_def Let_def scene_add_def upd_props_def shape_def
       add_child_def new_Mesh_def new_HTMLElement_def)

lemma addNucleus_fields:
  "orbs (addNucleus s) = orbs s"
  "domLabels (addNucleus s) = domLabels s"
  "next_el (addNucleus s) = next_el s"
  "elements (addNucleus s) = elements s"
  "scene_id (addNucleus s) = scene_id s"
  "next_id (heap (addNucleus s)) = next_id (heap s) + 1"
  "q \<noteq> next_id (heap s) \<Longrightarrow> cells (heap (addNucleus s)) q = cells (heap s) q"
  "scene_children (addNucleus s) = scene_children s @ [MeshChild (next_id (heap s))]"
  by (simp_all add: addNucleus_def Let_def scene_add_def upd_props_def)

lemma wf_scene_init: "wf_scene (init w)"
  by (auto simp: wf_scene_def scene_meshes_def init_def)

lemma labels_ok_init: "labels_ok (init w)"
  by (simp add: labels_ok_def init_def)

lemma wf_scene_addNucleus:
  assumes "wf_scene s"
  shows "wf_scene (addNucleus s)"
proof -
  let ?n = "next_id (heap s)"
  let ?ids' = "insert ?n (scene_meshes s)"
  from assms have lt: "\<And>r. r \<in> scene_meshes s \<Longrightarrow> r < ?n"
    by (simp add: wf_scene_def)
  have ids': "scene_meshes (addNucleus s) = ?ids'"
    by (auto simp: scene_meshes_def addNucleus_fields)
  have "\<And>ob. ob \<in> set (orbs s) \<Longrightarrow> mesh ob \<noteq> scene_id s \<and> mesh ob \<in> ?ids' \<and>
          mesh_ok (scene_id s) (?n + 1) ?ids' (mesh ob) (cells (heap (addNucleus s)) (mesh ob))"
  proof -
    fix ob assume ob: "ob \<in> set (orbs s)"
    with assms have mem: "mesh ob \<in> scene_meshes s" and ne: "mesh ob \<noteq> scene_id s"
      and ok: "mesh_ok (scene_id s) ?n (scene_meshes s) (mesh ob) (cells (heap s) (mesh ob))"
      by (simp_all add: wf_scene_def)
    from lt [OF mem] have "cells (heap (addNucleus s)) (mesh ob) = cells (heap s) (mesh ob)"
      by (simp add: addNucleus_fields)
    thus "mesh ob \<noteq> scene_id s \<and> mesh ob \<in> ?ids' \<and>
          mesh_ok (scene_id s) (?n + 1) ?ids' (mesh ob) (cells (heap (addNucleus s)) (mesh ob))"
      using mesh_ok_mono [OF ok, of "?n + 1" ?ids'] mem ne by simp
  qed
  moreover from assms have "scene_id s < ?n + 1" "distinct (map mesh (orbs s))"
    by (simp_all add: wf_scene_def)
  moreover have "\<And>r. r \<in> ?ids' \<Longrightarrow> r < ?n + 1"
    using lt by fastforce
  ultimately show ?thesis
    by (simp add: wf_scene_def addNucleus_fields ids')
qed

lemma labels_ok_addNucleus: "labels_ok s \<Longrightarrow> labels_ok (addNucleus s)"
  by (simp add: labels_ok_def addNucleus_fields)

lemma wf_scene_addOrb:
  assumes "wf_scene s"
  shows "wf_scene (addOrb d r1 r2 s)"
proof -
  let ?n = "next_id (heap s)"
  let ?s' = "addOrb d r1 r2 s"
  let ?ids' = "insert ?n (scene_meshes s)"
  obtain new where orbs': "orbs ?s' = orbs s @ [new]" and new: "mesh new = ?n"
    using addOrb_fields(1) [of d r1 r2 s] by blast
  have ids': "scene_meshes ?s' = ?ids'"
    by (auto simp: scene_meshes_def addOrb_fields)
  from assms have scn: "scene_id s < ?n" and dist: "distinct (map mesh (orbs s))"
    and lt: "\<And>r. r \<in> scene_meshes s \<Longrightarrow> r < ?n"
    and old: "\<And>ob. ob \<in> set (orbs s) \<Longrightarrow> mesh ob \<noteq> scene_id s \<and> mesh ob \<in> scene_meshes s \<and>
          mesh_ok (scene_id s) ?n (scene_meshes s) (mesh ob) (cells (heap s) (mesh ob))"
    by (simp_all add: wf_scene_def)
  have fresh: "?n \<notin> mesh ` set (orbs s)"
    using old lt by fastforce
  have d': "distinct (map mesh (orbs ?s'))"
    using dist fresh by (simp add: orbs' new)
  have okold: "\<And>ob. ob \<in> set (orbs s) \<Longrightarrow>
      mesh_ok (scene_id s) (?n + 2) ?ids' (mesh ob) (cells (heap ?s') (mesh ob))"
  proof -
    fix ob assume ob: "ob \<in> set (orbs s)"
    from old [OF ob] have mem: "mesh ob \<in> scene_meshes s"
      and ok: "mesh_ok (scene_id s) ?n (scene_meshes s) (mesh ob) (cells (heap s) (mesh ob))"
      by simp_all
    from lt [OF mem] have "cells (heap ?s') (mesh ob) = cells (heap s) (mesh ob)"
      by (simp add: addOrb_fields)
    thus "mesh_ok (scene_id s) (?n + 2) ?ids' (mesh ob) (cells (heap ?s') (mesh ob))"
      using mesh_ok_mono [OF ok, of "?n + 2" ?ids'] by simp
  qed
  have fresh1: "?n + 1 \<notin> scene_meshes s"
    using lt by fastforce
  have oknew: "mesh_ok (scene_id s) (?n + 2) ?ids' ?n (cells (heap ?s') ?n)"
    using fresh1 by (simp add: mesh_ok_def addOrb_fields(8))
  have "\<And>ob. ob \<in> set (orbs ?s') \<Longrightarrow> mesh ob \<noteq> scene_id s \<and> mesh ob \<in> ?ids' \<and>
      mesh_ok (scene_id s) (?n + 2) ?ids' (mesh ob) (cells (heap ?s') (mesh ob))"
  proof -
    fix ob assume "ob \<in> set (orbs ?s')"
    hence "ob \<in> set (orbs s) \<or> ob = new" by (auto simp: orbs')
    thus "mesh ob \<noteq> scene_id s \<and> mesh ob \<in> ?ids' \<and>
      mesh_ok (scene_id s) (?n + 2) ?ids' (mesh ob) (cells (heap ?s') (mesh ob))"
    proof
      assume a: "ob \<in> set (orbs s)"
      from old [OF a] okold [OF a] show ?thesis by simp
    next
      assume "ob = new"
      with oknew scn new show ?thesis by simp
    qed
  qed
  moreover have "\<And>r. r \<in> ?ids' \<Longrightarrow> r < ?n + 2"
    using lt by fastforce
  ultimately show ?thesis
    using scn d' by (simp add: wf_scene_def addOrb_fields(5,6) ids')
qed

lemma labels_ok_addOrb:
  assumes "labels_ok s"
  shows "labels_ok (addOrb d r1 r2 s)"
proof -
  let ?s' = "addOrb d r1 r2 s"
  obtain new where orbs': "orbs ?s' = orbs s @ [new]" and new: "label new = def_label d"
    using addOrb_fields(1) [of d r1 r2 s] by blast
  from assms have dist: "distinct (domLabels s)" and lt: "\<forall>l\<in>set (domLabels s). l < next_el s"
    and al: "map (\<lambda>l. innerText (elements s l)) (domLabels s) = map label (orbs s)"
    by (simp_all add: labels_ok_def)
  have "map (\<lambda>l. innerText (elements ?s' l)) (domLabels s)
        = map (\<lambda>l. innerText (elements s l)) (domLabels s)"
    using lt by (auto simp: addOrb_fields(4))
  with al have "map (\<lambda>l. innerText (elements ?s' l)) (domLabels ?s') = map label (orbs ?s')"
    by (simp add: addOrb_fields(2,4) orbs' new)
  moreover have "distinct (domLabels ?s')"
    using dist lt by (auto simp: addOrb_fields(2))
  moreover have "\<forall>l\<in>set (domLabels ?s'). l < next_el ?s'"
    using lt by (auto simp: addOrb_fields(2,3))
  ultimately show ?thesis by (simp add: labels_ok_def)
qed

lemma step_invariants:
  assumes "step s s'" and "wf_scene s" and "labels_ok s"
  shows "wf_scene s' \<and> labels_ok s'"
  using assms
proof (induction rule: step.induct)
  case (step_addOrb s d rnd1 rnd2)
  thus ?case by (simp add: wf_scene_addOrb labels_ok_addOrb)
next
  case (step_addNucleus s)
  thus ?case by (simp add: wf_scene_addNucleus labels_ok_addNucleus)
next
  case (step_onResize s w)
  thus ?case using wf_keeps labels_ok_keeps onResize_keeps by blast
next
  case (step_onPointerMove s ev rect)
  thus ?case using wf_keeps labels_ok_keeps onPointerMove_keeps by blast
next
  case (step_onPointerDown s lib)
  thus ?case using wf_keeps labels_ok_keeps onPointerDown_keeps by blast
next
  case (step_tick lib w t s s')
  thus ?case using wf_keeps labels_ok_keeps tick_keeps by blast
qed

lemma reachable_invariants: "reachable s \<Longrightarrow> wf_scene s \<and> labels_ok s"
proof (induction rule: reachable.induct)
  case (reachable_init w)
  show ?case by (simp add: wf_scene_init labels_ok_init)
next
  case (reachable_step s s')
  thus ?case using step_invariants by blast
qed

section \<open>The pick\<close>

lemma intersect_empty_iff:
  "(intersect rc True m = []) = (\<forall>n\<in>set (nodes m). rc n = [])"
proof (induction m)
  case (Mesh p cs)
  have "(\<forall>c\<in>set cs. intersect rc True c = []) = (\<forall>c\<in>set cs. \<forall>n\<in>set (nodes c). rc n = [])"
    using Mesh.IH by blast
  thus ?case by simp
qed

lemma intersect_object_nodes:
  "i \<in> set (intersect rc b m) \<Longrightarrow> object i \<in> set (nodes m) \<and> distance i \<in> set (rc (object i))"
proof (induction m)
  case (Mesh p cs)
  thus ?case by (fastforce split: if_splits)
qed

lemma intersect_complete:
  "m' \<in> set (nodes m) \<Longrightarrow> d \<in> set (rc m') \<Longrightarrow>
   \<lparr>distance = d, object = m'\<rparr> \<in> set (intersect rc True m)"
proof (induction m)
  case (Mesh p cs)
  from Mesh.prems(1) have "m' = Mesh p cs \<or> (\<exists>c\<in>set cs. m' \<in> set (nodes c))" by auto
  thus ?case
  proof
    assume "m' = Mesh p cs"
    with Mesh.prems(2) show ?thesis by simp
  next
    assume "\<exists>c\<in>set cs. m' \<in> set (nodes c)"
    then obtain c where c: "c \<in> set cs" and "m' \<in> set (nodes c)" by blast
    with Mesh.IH Mesh.prems(2) have "\<lparr>distance = d, object = m'\<rparr> \<in> set (intersect rc True c)"
      by blast
    with c show ?thesis by auto
  qed
qed

lemma intersect_cong:
  "(\<And>m'. m' \<in> set (nodes m) \<Longrightarrow> rc' m' = rc m') \<Longrightarrow>
   intersect rc' True m = intersect rc True m"
proof (induction m)
  case (Mesh p cs)
  have "\<And>c. c \<in> set cs \<Longrightarrow> intersect rc' True c = intersect rc True c"
  proof -
    fix c assume c: "c \<in> set cs"
    have "\<And>m'. m' \<in> set (nodes c) \<Longrightarrow> rc' m' = rc m'"
      using Mesh.prems c by auto
    with Mesh.IH c show "intersect rc' True c = intersect rc True c" by blast
  qed
  hence 1: "map (intersect rc' True) cs = map (intersect rc True) cs" by simp
  have 2: "rc' (Mesh p cs) = rc (Mesh p cs)" using Mesh.prems by simp
  show ?case by (simp only: intersect.simps 1 2)
qed

lemma sort_key_Nil: "(sort_key f xs = []) = (xs = [])"
  by (metis set_sort set_empty)

lemma pick_empty_iff: "(pick lib s = []) = (\<not> orb_hit lib s)"
proof -
  have "(pick lib s = []) =
        (\<forall>ob\<in>set (orbs s). intersect (hits lib s) True (cells (heap s) (mesh ob)) = [])"
    by (simp add: pick_def intersectObjects_def hits_def [abs_def] sort_key_Nil)
  thus ?thesis
    by (simp add: intersect_empty_iff orb_hit_def)
qed

lemma pick_nearest:
  "pick lib s = i # rest \<Longrightarrow> \<forall>j\<in>set (pick lib s). distance i \<le> distance j"
proof -
  assume a: "pick lib s = i # rest"
  have "sorted (map distance (pick lib s))"
    by (simp add: pick_def intersectObjects_def)
  thus ?thesis by (simp add: a)
qed

lemma pick_object:
  assumes "i \<in> set (pick lib s)"
  shows "\<exists>ob\<in>set (orbs s). object i \<in> set (nodes (cells (heap s) (mesh ob))) \<and>
           distance i \<in> set (hits lib s (object i))"
proof -
  from assms obtain ob where ob: "ob \<in> set (orbs s)"
    and i: "i \<in> set (intersect (hits lib s) True (cells (heap s) (mesh ob)))"
    by (auto simp: pick_def intersectObjects_def hits_def [abs_def])
  from intersect_object_nodes [OF i] ob show ?thesis by blast
qed

lemma pick_complete:
  assumes "ob \<in> set (orbs s)" and "m \<in> set (nodes (cells (heap s) (mesh ob)))"
    and "d \<in> set (hits lib s m)"
  shows "\<lparr>distance = d, object = m\<rparr> \<in> set (pick lib s)"
proof -
  from intersect_complete [OF assms(2), of d "hits lib s"] assms(3)
  have "\<lparr>distance = d, object = m\<rparr> \<in> set (intersect (hits lib s) True (cells (heap s) (mesh ob)))"
    by simp
  with assms(1) show ?thesis
    by (auto simp: pick_def intersectObjects_def hits_def [abs_def])
qed

lemma self_in_nodes: "m \<in> set (nodes m)"
  by (cases m) simp

lemma leaves_nodes: "\<forall>c\<in>set cs. children c = [] \<Longrightarrow> concat (map nodes cs) = cs"
proof (induction cs)
  case Nil
  show ?case by simp
next
  case (Cons c cs)
  obtain p where "c = Mesh p []" using Cons.prems by (cases c) simp
  thus ?case using Cons by simp
qed

lemma mesh_ok_nodes:
  assumes "mesh_ok scn b ids r m"
  shows "nodes m = m # children m"
proof (cases m)
  case (Mesh p cs)
  from mesh_okD [OF assms] have "\<forall>c\<in>set cs. children c = []"
    by (simp add: Mesh)
  hence "concat (map nodes cs) = cs" by (rule leaves_nodes)
  thus ?thesis by (simp add: Mesh)
qed

lemma find_unique:
  "x \<in> set xs \<Longrightarrow> P x \<Longrightarrow> (\<forall>y\<in>set xs. P y \<longrightarrow> y = x) \<Longrightarrow> find P xs = Some x"
proof (induction xs)
  case Nil
  thus ?case by simp
next
  case (Cons y ys)
  show ?case
  proof (cases "P y")
    case True
    with Cons.prems(3) have "y = x" by simp
    with True show ?thesis by simp
  next
    case False
    with Cons.prems(1,2) have "x \<in> set ys" by auto
    moreover from Cons.prems(3) have "\<forall>z\<in>set ys. P z \<longrightarrow> z = x" by simp
    ultimately have "find P ys = Some x" using Cons.IH Cons.prems(2) by blast
    with False show ?thesis by simp
  qed
qed

text \<open>In a well-formed scene a node below an Orb's mesh belongs to that Orb alone.\<close>

lemma owner_unique:
  assumes wf: "wf_scene s" and ob: "ob \<in> set (orbs s)"
    and m: "m \<in> set (nodes (cells (heap s) (mesh ob)))"
    and ob': "ob' \<in> set (orbs s)"
  shows "(mesh ob' = obj_id (props m) \<or> parent (props m) = Some (mesh ob')) = (ob' = ob)"
proof -
  let ?root = "cells (heap s) (mesh ob)"
  from wf ob have ne: "mesh ob \<noteq> scene_id s"
    and ok: "mesh_ok (scene_id s) (next_id (heap s)) (scene_meshes s) (mesh ob) ?root"
    by (simp_all add: wf_scene_def)
  from wf ob' have ne': "mesh ob' \<noteq> scene_id s" and mem': "mesh ob' \<in> scene_meshes s"
    by (simp_all add: wf_scene_def)
  from wf have "inj_on mesh (set (orbs s))"
    by (simp add: wf_scene_def distinct_map)
  from inj_onD [OF this _ ob' ob] have inj: "mesh ob' = mesh ob \<Longrightarrow> ob' = ob" .
  from m mesh_ok_nodes [OF ok] have "m = ?root \<or> m \<in> set (children ?root)" by simp
  thus ?thesis
  proof
    assume "m = ?root"
    with mesh_okD [OF ok] have 1: "obj_id (props m) = mesh ob"
      and 2: "parent (props m) = Some (scene_id s)"
      by simp_all
    show ?thesis
    proof
      assume "mesh ob' = obj_id (props m) \<or> parent (props m) = Some (mesh ob')"
      with 1 2 ne' have "mesh ob' = mesh ob" by auto
      thus "ob' = ob" by (rule inj)
    next
      assume "ob' = ob"
      with 1 show "mesh ob' = obj_id (props m) \<or> parent (props m) = Some (mesh ob')" by simp
    qed
  next
    assume "m \<in> set (children ?root)"
    with mesh_okD [OF ok] have 1: "parent (props m) = Some (mesh ob)"
      and 2: "obj_id (props m) \<notin> scene_meshes s" by simp_all
    from 2 mem' have 3: "mesh ob' \<noteq> obj_id (props m)" by auto
    show ?thesis
    proof
      assume "mesh ob' = obj_id (props m) \<or> parent (props m) = Some (mesh ob')"
      with 1 3 have "mesh ob' = mesh ob" by auto
      thus "ob' = ob" by (rule inj)
    next
      assume "ob' = ob"
      with 1 show "mesh ob' = obj_id (props m) \<or> parent (props m) = Some (mesh ob')" by simp
    qed
  qed
qed

text \<open>The nucleus is no node below the mesh of an Orb.\<close>

lemma nucleus_not_under_orb:
  assumes wf: "wf_scene s" and n: "is_nucleus s n" and ob: "ob \<in> set (orbs s)"
    and m: "m \<in> set (nodes (cells (heap s) (mesh ob)))"
  shows "obj_id (props m) \<noteq> n"
proof -
  let ?root = "cells (heap s) (mesh ob)"
  from wf ob have ok: "mesh_ok (scene_id s) (next_id (heap s)) (scene_meshes s) (mesh ob) ?root"
    by (simp add: wf_scene_def)
  from n have n1: "n \<in> scene_meshes s" and n2: "n \<notin> mesh ` set (orbs s)"
    by (simp_all add: is_nucleus_def scene_meshes_def)
  from ob have "mesh ob \<in> mesh ` set (orbs s)" by (rule imageI)
  with n2 have ne: "mesh ob \<noteq> n" by auto
  from m mesh_ok_nodes [OF ok] have "m = ?root \<or> m \<in> set (children ?root)" by simp
  thus ?thesis
  proof
    assume "m = ?root"
    with mesh_okD [OF ok] ne show ?thesis by simp
  next
    assume "m \<in> set (children ?root)"
    with mesh_okD [OF ok] have "obj_id (props m) \<notin> scene_meshes s" by simp
    with n1 show ?thesis by auto
  qed
qed

lemma onPointerDown_hit:
  assumes wf: "wf_scene s" and p: "pick lib s = i # rest" and ob: "ob \<in> set (orbs s)"
    and m: "object i \<in> set (nodes (cells (heap s) (mesh ob)))"
  shows "onPointerDown lib s =
           s\<lparr>raycaster := Some (pick_ray s), heap := expand ob (heap s),
             selected := selected s @ [ob]\<rparr>"
proof -
  let ?P = "\<lambda>ob'. mesh ob' = obj_id (props (object i)) \<or> parent (props (object i)) = Some (mesh ob')"
  have "?P ob" using owner_unique [OF wf ob m ob] by simp
  moreover have "\<forall>ob'\<in>set (orbs s). ?P ob' \<longrightarrow> ob' = ob"
    using owner_unique [OF wf ob m] by simp
  ultimately have "find ?P (orbs s) = Some ob"
    using ob by (intro find_unique)
  thus ?thesis by (simp add: onPointerDown_def Let_def p)
qed

lemma onPointerDown_selects:
  assumes wf: "wf_scene s" and hit: "orb_hit lib s"
  shows "\<exists>i rest. pick lib s = i # rest \<and>
           (\<exists>ob\<in>set (orbs s). object i \<in> set (nodes (cells (heap s) (mesh ob))) \<and>
              distance i \<in> set (hits lib s (object i)) \<and>
              onPointerDown lib s =
                s\<lparr>raycaster := Some (pick_ray s), heap := expand ob (heap s),
                  selected := selected s @ [ob]\<rparr>)"
proof -
  from hit obtain i rest where p: "pick lib s = i # rest"
    using pick_empty_iff [of lib s] by (cases "pick lib s") auto
  hence "i \<in> set (pick lib s)" by simp
  from pick_object [OF this] obtain ob where ob: "ob \<in> set (orbs s)"
    and m: "object i \<in> set (nodes (cells (heap s) (mesh ob)))"
    and d: "distance i \<in> set (hits lib s (object i))" by blast
  from onPointerDown_hit [OF wf p ob m] p ob m d show ?thesis by blast
qed

lemma onPointerDown_pick_cong: "pick lib' s = pick lib s \<Longrightarrow> onPointerDown lib' s = onPointerDown lib s"
  by (simp add: onPointerDown_def)

section \<open>Frames never throw; steps only append\<close>

lemma labels_ok_length: "labels_ok s \<Longrightarrow> length (domLabels s) = length (orbs s)"
  unfolding labels_ok_def by (metis length_map)

lemma update_orbs_total:
  "i + length obs \<le> length (domLabels s) \<Longrightarrow> \<exists>s'. update_orbs lib w t i obs s = Inr s'"
proof (induction obs arbitrary: i s)
  case Nil
  show ?case by simp
next
  case (Cons ob obs)
  hence "i < length (domLabels s)" by simp
  then obtain s1 where 1: "update_orb lib w t ob i s = Inr s1"
    by (simp add: update_orb_def Let_def)
  from update_orb_keeps [OF 1] have "domLabels s1 = domLabels s" by (simp add: keeps_def)
  with Cons.prems have "(i + 1) + length obs \<le> length (domLabels s1)" by simp
  from Cons.IH [OF this] obtain s' where "update_orbs lib w t (i + 1) obs s1 = Inr s'" by blast
  with 1 show ?case by simp
qed

lemma tick_total:
  assumes "labels_ok s"
  shows "\<exists>s'. tick lib w t s = Inr s'"
proof -
  let ?s1 = "s\<lparr>heap := traverse_breathe t (scene_children s) (heap s)\<rparr>"
  from labels_ok_length [OF assms] have "0 + length (orbs ?s1) \<le> length (domLabels ?s1)"
    by simp
  from update_orbs_total [OF this] obtain s2 where "update_orbs lib w t 0 (orbs ?s1) ?s1 = Inr s2"
    by blast
  thus ?thesis by (simp add: tick_def Let_def)
qed

lemma step_grows:
  "step s s' \<Longrightarrow> \<exists>obs ls. orbs s' = orbs s @ obs \<and> domLabels s' = domLabels s @ ls \<and>
                      length obs = length ls"
proof (induction rule: step.induct)
  case (step_addOrb s d rnd1 rnd2)
  from addOrb_fields(1) [of d rnd1 rnd2 s] obtain ob
    where "orbs (addOrb d rnd1 rnd2 s) = orbs s @ [ob]" by blast
  moreover have "domLabels (addOrb d rnd1 rnd2 s) = domLabels s @ [next_el s]"
    by (rule addOrb_fields(2))
  moreover have "length [ob] = length [next_el s]" by simp
  ultimately show ?case by blast
next
  case (step_addNucleus s)
  show ?case by (simp add: addNucleus_fields)
next
  case (step_onResize s w)
  show ?case using onResize_keeps [of s w] by (simp add: keeps_def)
next
  case (step_onPointerMove s ev rect)
  show ?case using onPointerMove_keeps [of s ev rect] by (simp add: keeps_def)
next
  case (step_onPointerDown s lib)
  show ?case using onPointerDown_keeps [of s lib] by (simp add: keeps_def)
next
  case (step_tick lib w t s s')
  from tick_keeps [OF step_tick] show ?case by (simp add: keeps_def)
qed

text \<open>A frame leaves every Orb of the list at hover scale or at rest scale.\<close>

lemma update_orb_scale:
  assumes "update_orb lib w t ob i s = Inr s'"
  shows "scale (props (cells (heap s') r)) =
           (if r = mesh ob
            then scale (props (cells (heap s') (mesh ob)))
            else scale (props (cells (heap s) r)))"
    and "scale (props (cells (heap s') (mesh ob))) \<in> {Vector3 1.28 1.28 1.28, Vector3 1 1 1}"
  using assms
  by (auto simp: update_orb_def Let_def setHover_def setOrbit_def setScalar_def upd_props_def
        split: if_splits)

lemma update_orbs_scale:
  "update_orbs lib w t i obs s = Inr s' \<Longrightarrow>
   r \<in> mesh ` set obs \<or> scale (props (cells (heap s) r)) \<in> {Vector3 1.28 1.28 1.28, Vector3 1 1 1} \<Longrightarrow>
   scale (props (cells (heap s') r)) \<in> {Vector3 1.28 1.28 1.28, Vector3 1 1 1}"
proof (induction obs arbitrary: i s)
  case Nil
  thus ?case by simp
next
  case (Cons ob obs)
  from Cons.prems(1) obtain s1 where 1: "update_orb lib w t ob i s = Inr s1"
    and 2: "update_orbs lib w t (i + 1) obs s1 = Inr s'"
    by (auto split: sum.splits)
  have "r \<in> mesh ` set obs \<or>
        scale (props (cells (heap s1) r)) \<in> {Vector3 1.28 1.28 1.28, Vector3 1 1 1}"
  proof (cases "r = mesh ob")
    case True
    with update_orb_scale(2) [OF 1] show ?thesis by simp
  next
    case False
    with update_orb_scale(1) [OF 1, of r] Cons.prems(2) show ?thesis by auto
  qed
  from Cons.IH [OF 2 this] show ?case .
qed

lemma tick_resets_scale:
  assumes "tick lib w t s = Inr s'" and "ob \<in> set (orbs s)"
  shows "scale (mesh_props (heap s') ob) \<in> {Vector3 1.28 1.28 1.28, Vector3 1 1 1}"
proof -
  let ?s1 = "s\<lparr>heap := traverse_breathe t (scene_children s) (heap s)\<rparr>"
  from assms(1) obtain s2 where 1: "update_orbs lib w t 0 (orbs s) ?s1 = Inr s2"
    and 2: "s' = s2\<lparr>camera := update_controls lib (camera s2)\<rparr>"
    by (auto simp: tick_def Let_def split: sum.splits)
  from assms(2) have "mesh ob \<in> mesh ` set (orbs s)" by (rule imageI)
  with update_orbs_scale [OF 1, of "mesh ob"] show ?thesis
    by (simp add: 2 mesh_props_def)
qed

section \<open>The concrete session\<close>

lemma reachable_addOrbs: "reachable s \<Longrightarrow> reachable (addOrbs ds rnd k s)"
proof (induction ds arbitrary: k s)
  case Nil
  thus ?case by simp
next
  case (Cons d ds)
  from Cons.prems have "reachable (addOrb d (rnd k) (rnd (k + 1)) s)"
    by (rule reachable_step) (rule step_addOrb)
  thus ?case using Cons.IH by simp
qed

lemma reachable_ex_built: "reachable ex_built"
  unfolding ex_built_def
  by (rule reachable_step [OF reachable_addOrbs [OF reachable_init] step_addNucleus])

lemma ex_session_tick: "tick ex_lib ex_window 0 ex_built = Inr ex_session"
proof -
  from reachable_ex_built have "labels_ok ex_built" by (simp add: reachable_invariants)
  from tick_total [OF this] obtain s' where "tick ex_lib ex_window 0 ex_built = Inr s'" by blast
  thus ?thesis by (simp add: ex_session_def new_SceneManager_def ex_built_def)
qed

lemma reachable_ex_session: "reachable ex_session"
  by (rule reachable_step [OF reachable_ex_built step_tick [OF ex_session_tick]])

lemma ex_built_fields:
  "map mesh (orbs ex_built) = [1, 3, 5, 7, 9, 11]"
  "scene_meshes ex_built = {1, 3, 5, 7, 9, 11, 13}"
proof -
  have a: "\<And>d r1 r2 s. map mesh (orbs (addOrb d r1 r2 s)) = map mesh (orbs s) @ [next_id (heap s)]"
    using addOrb_fields(1) by (metis (no_types, lifting) list.simps(8,9) map_append)
  show "map mesh (orbs ex_built) = [1, 3, 5, 7, 9, 11]"
    by (simp add: ex_built_def defs_def ex_rnds_def addNucleus_fields a addOrb_fields(6))
      (simp add: init_def)
  show "scene_meshes ex_built = {1, 3, 5, 7, 9, 11, 13}"
    by (simp add: ex_built_def defs_def ex_rnds_def scene_meshes_def addNucleus_fields
          addOrb_fields(6,9))
      (auto simp add: init_def)
qed

lemma ex_session_fields:
  "map mesh (orbs ex_session) = [1, 3, 5, 7, 9, 11]"
  "scene_meshes ex_session = {1, 3, 5, 7, 9, 11, 13}"
  using tick_keeps [OF ex_session_tick] ex_built_fields
  by (simp_all add: keeps_def scene_meshes_def)

lemma addNucleus_shape:
  "shape (cells (heap (addNucleus s)) (next_id (heap s))) =
     (next_id (heap s), Some (scene_id s), [])"
  by (simp add: addNucleus_def Let_def scene_add_def upd_props_def shape_def new_Mesh_def)

lemma ex_nucleus: "is_nucleus ex_session 13" "obj_id (props (cells (heap ex_session) 13)) = 13"
proof -
  have "13 \<in> scene_meshes ex_session" by (simp add: ex_session_fields)
  moreover have "13 \<notin> set (map mesh (orbs ex_session))" by (simp add: ex_session_fields)
  ultimately show "is_nucleus ex_session 13"
    by (simp add: is_nucleus_def scene_meshes_def)
  have "next_id (heap (addOrbs defs ex_rnds 0 (init ex_window))) = 13"
    by (simp add: defs_def ex_rnds_def addOrb_fields(6)) (simp add: init_def)
  with addNucleus_shape [of "addOrbs defs ex_rnds 0 (init ex_window)"]
  have "shape (cells (heap ex_built) 13) = (13, Some (scene_id (addOrbs defs ex_rnds 0 (init ex_window))), [])"
    by (simp add: ex_built_def)
  moreover from tick_keeps [OF ex_session_tick]
  have "shape (cells (heap ex_session) 13) = shape (cells (heap ex_built) 13)"
    by (simp add: keeps_def)
  ultimately show "obj_id (props (cells (heap ex_session) 13)) = 13"
    by (simp add: shape_def)
qed

lemma ex_first_orb:
  "hd (orbs ex_session) \<in> set (orbs ex_session)" "mesh (hd (orbs ex_session)) = 1"
  "obj_id (props (cells (heap ex_session) 1)) = 1"
proof -
  from ex_session_fields(1) have ne: "orbs ex_session \<noteq> []" by auto
  thus 1: "hd (orbs ex_session) \<in> set (orbs ex_session)" by simp
  from ex_session_fields(1) ne show 2: "mesh (hd (orbs ex_session)) = 1"
    by (cases "orbs ex_session") simp_all
  from reachable_ex_session have "wf_scene ex_session" by (simp add: reachable_invariants)
  with 1 have "mesh_ok (scene_id ex_session) (next_id (heap ex_session)) (scene_meshes ex_session)
      (mesh (hd (orbs ex_session))) (cells (heap ex_session) (mesh (hd (orbs ex_session))))"
    by (simp add: wf_scene_def)
  from mesh_okD [OF this] show "obj_id (props (cells (heap ex_session) 1)) = 1"
    by (simp add: 2)
qed

lemma ex_orb_hit: "orb_hit ex_lib ex_session"
proof -
  let ?root = "cells (heap ex_session) (mesh (hd (orbs ex_session)))"
  have "?root \<in> set (nodes ?root)" by (rule self_in_nodes)
  moreover have "hits ex_lib ex_session ?root \<noteq> []"
    using ex_first_orb(2,3) by (simp add: hits_def ex_lib_def)
  ultimately show ?thesis
    unfolding orb_hit_def using ex_first_orb(1) by blast
qed

lemma ex_nucleus_only: "\<not> orb_hit ex_lib_nucleus ex_session"
proof -
  from reachable_ex_session have wf: "wf_scene ex_session" by (simp add: reachable_invariants)
  have "\<And>ob m. ob \<in> set (orbs ex_session) \<Longrightarrow>
          m \<in> set (nodes (cells (heap ex_session) (mesh ob))) \<Longrightarrow>
          hits ex_lib_nucleus ex_session m = []"
    using nucleus_not_under_orb [OF wf ex_nucleus(1)]
    by (simp add: hits_def ex_lib_nucleus_def)
  thus ?thesis by (simp add: orb_hit_def)
qed

section \<open>Orb: orbit, hover and expand\<close>

lemma tasks_orb_simps:
  "orbitRadius tasks_orb = 140" "phase tasks_orb = 5 * pi / 4" "speed tasks_orb = 1 / 2"
  "mesh tasks_orb = 1"
  by (simp_all add: tasks_orb_def tasks_heap0_def init_def new_Orb_def Let_def)

text \<open>
  C1. For every Orb, every elapsed time \<open>t\<close> and every state of the heap, \<open>setOrbit(t)\<close>
  sets the position of the Orb's mesh to \<open>x = cos \<theta> * orbitRadius\<close>,
  \<open>y = sin (\<theta> * 0.6 + phase) * orbitRadius * 0.12\<close>, \<open>z = sin \<theta> * orbitRadius * 0.7\<close>
  with \<open>\<theta> = t * (speed * 0.2) + phase\<close>.
\<close>

theorem setOrbit_position:
  "position (mesh_props (setOrbit this t h) this) =
     Vector3 (cos (t * (speed this * 0.2) + phase this) * orbitRadius this)
             (sin ((t * (speed this * 0.2) + phase this) * 0.6 + phase this)
                * orbitRadius this * 0.12)
             (sin (t * (speed this * 0.2) + phase this) * orbitRadius this * 0.7)"
  by (simp add: mesh_props_def setOrbit_def Let_def)

text \<open>
  C2, as the spec states it, fails: for the Orb of the scenario (orbit radius 140) with
  phase \<open>5\<pi>/4\<close>, \<open>setOrbit(0)\<close> gives \<open>y = sin (2\<pi>) * 16.8 = 0\<close>, while the
  claimed \<open>sin (0.6 * phase) * 16.8\<close> is \<open>sin (3\<pi>/4) * 16.8 > 0\<close>.
\<close>

theorem setOrbit_scenario_counterexample:
  "position (mesh_props (setOrbit tasks_orb 0 tasks_heap) tasks_orb) \<noteq>
     Vector3 (140 * cos (phase tasks_orb)) (sin (0.6 * phase tasks_orb) * 16.8)
             (98 * sin (phase tasks_orb))"
proof -
  have "0 < sin (3 * pi / 4)"
    by (rule sin_gt_zero) simp_all
  moreover have "0.6 * (5 * pi / 4) = 3 * pi / 4" by simp
  moreover have "(5 * pi / 4) * 0.6 + 5 * pi / 4 = 2 * pi" by simp
  ultimately show ?thesis
    by (simp add: mesh_props_def setOrbit_def Let_def tasks_orb_simps)
qed

text \<open>
  C2, amended. For an Orb with orbit radius 140 and any phase and speed, after
  \<open>setOrbit(0)\<close> the position is
  \<open>(140 * cos phase, sin (1.6 * phase) * 16.8, 98 * sin phase)\<close>: at \<open>t = 0\<close> the angle
  \<open>\<theta>\<close> is the phase, and the height adds the phase to \<open>0.6 * \<theta>\<close> once more.
\<close>

theorem setOrbit_scenario:
  "orbitRadius this = 140 \<Longrightarrow>
   position (mesh_props (setOrbit this 0 h) this) =
     Vector3 (140 * cos (phase this)) (sin (1.6 * phase this) * 16.8) (98 * sin (phase this))"
  by (simp add: mesh_props_def setOrbit_def Let_def algebra_simps)

theorem setOrbit_scenario_witness:
  "orbitRadius tasks_orb = 140 \<and>
   position (mesh_props (setOrbit tasks_orb 0 tasks_heap) tasks_orb) =
     Vector3 (140 * cos (phase tasks_orb)) (sin (1.6 * phase tasks_orb) * 16.8)
             (98 * sin (phase tasks_orb))"
  using setOrbit_scenario [of tasks_orb tasks_heap] by (simp add: tasks_orb_simps)

text \<open>
  C3. For every Orb in any state, \<open>setHover(true)\<close> followed by \<open>setHover(false)\<close> leaves
  the scale at (1, 1, 1), the emissive intensity at 0.4 and the roughness at 0.25; and
  a second identical \<open>setHover(b)\<close> changes nothing.
\<close>

theorem setHover_round_trip:
  "scale (mesh_props (setHover this False (setHover this True h)) this) = Vector3 1 1 1 \<and>
   emissiveIntensity (material (mesh_props (setHover this False (setHover this True h)) this))
     = 0.4 \<and>
   roughness (material (mesh_props (setHover this False (setHover this True h)) this)) = 0.25 \<and>
   setHover this b (setHover this b h) = setHover this b h"
  by (simp add: mesh_props_def setHover_def Let_def setScalar_def upd_props_def)

text \<open>
  C6. For every Orb with a nonzero orbit radius and every elapsed time, the position set
  by \<open>setOrbit\<close> lies on the ellipse
  \<open>x\<^sup>2 / orbitRadius\<^sup>2 + (z / 0.7)\<^sup>2 / orbitRadius\<^sup>2 = 1\<close> (over the reals).
\<close>

theorem setOrbit_ellipse:
  "orbitRadius this \<noteq> 0 \<Longrightarrow>
   (vec_x (position (mesh_props (setOrbit this t h) this)))\<^sup>2 / (orbitRadius this)\<^sup>2 +
   (vec_z (position (mesh_props (setOrbit this t h) this)) / 0.7)\<^sup>2 / (orbitRadius this)\<^sup>2
     = 1"
  by (simp add: mesh_props_def setOrbit_def Let_def power_mult_distrib)

theorem setOrbit_ellipse_witness:
  "orbitRadius tasks_orb \<noteq> 0 \<and>
   (vec_x (position (mesh_props (setOrbit tasks_orb 3 tasks_heap) tasks_orb)))\<^sup>2
      / (orbitRadius tasks_orb)\<^sup>2 +
   (vec_z (position (mesh_props (setOrbit tasks_orb 3 tasks_heap) tasks_orb)) / 0.7)\<^sup>2
      / (orbitRadius tasks_orb)\<^sup>2 = 1"
  using setOrbit_ellipse [of tasks_orb 3 tasks_heap] by (simp add: tasks_orb_simps)

text \<open>
  C7. \<open>setOrbit\<close> is deterministic. A second call with the same \<open>t\<close> changes nothing;
  the position and the rotation about x and y it writes are the same from any two heap
  states, for any two Orbs that agree on orbit radius, speed and phase; the rotation
  about z is not written at all.
\<close>

theorem setOrbit_deterministic:
  "setOrbit this t (setOrbit this t h) = setOrbit this t h \<and>
   (orbitRadius this' = orbitRadius this \<and> speed this' = speed this \<and> phase this' = phase this
      \<longrightarrow>
      position (mesh_props (setOrbit this' t h') this')
        = position (mesh_props (setOrbit this t h) this) \<and>
      euler_x (rotation (mesh_props (setOrbit this' t h') this'))
        = euler_x (rotation (mesh_props (setOrbit this t h) this)) \<and>
      euler_y (rotation (mesh_props (setOrbit this' t h') this'))
        = euler_y (rotation (mesh_props (setOrbit this t h) this))) \<and>
   euler_z (rotation (mesh_props (setOrbit this t h) this)) = euler_z (rotation (mesh_props h this))"
  by (simp add: mesh_props_def setOrbit_def Let_def upd_props_def)

theorem setOrbit_deterministic_witness:
  "orbitRadius (tasks_orb\<lparr>label := ''Copy'', mesh := 7\<rparr>) = orbitRadius tasks_orb \<and>
   speed (tasks_orb\<lparr>label := ''Copy'', mesh := 7\<rparr>) = speed tasks_orb \<and>
   phase (tasks_orb\<lparr>label := ''Copy'', mesh := 7\<rparr>) = phase tasks_orb \<and>
   setOrbit tasks_orb 3 (setOrbit tasks_orb 3 tasks_heap) = setOrbit tasks_orb 3 tasks_heap \<and>
   position (mesh_props (setOrbit (tasks_orb\<lparr>label := ''Copy'', mesh := 7\<rparr>) 3
                (expand tasks_orb tasks_heap)) (tasks_orb\<lparr>label := ''Copy'', mesh := 7\<rparr>))
     = position (mesh_props (setOrbit tasks_orb 3 tasks_heap) tasks_orb) \<and>
   euler_x (rotation (mesh_props (setOrbit (tasks_orb\<lparr>label := ''Copy'', mesh := 7\<rparr>) 3
                (expand tasks_orb tasks_heap)) (tasks_orb\<lparr>label := ''Copy'', mesh := 7\<rparr>)))
     = euler_x (rotation (mesh_props (setOrbit tasks_orb 3 tasks_heap) tasks_orb)) \<and>
   euler_y (rotation (mesh_props (setOrbit (tasks_orb\<lparr>label := ''Copy'', mesh := 7\<rparr>) 3
                (expand tasks_orb tasks_heap)) (tasks_orb\<lparr>label := ''Copy'', mesh := 7\<rparr>)))
     = euler_y (rotation (mesh_props (setOrbit tasks_orb 3 tasks_heap) tasks_orb))"
  using setOrbit_deterministic [of tasks_orb 3 tasks_heap
      "tasks_orb\<lparr>label := ''Copy'', mesh := 7\<rparr>" "expand tasks_orb tasks_heap"]
  by simp

text \<open>
  C9. The emphasis of \<open>expand()\<close> does not survive a hover update: \<open>setHover(b)\<close> after
  \<open>expand()\<close> leaves the Orb exactly as \<open>setHover(b)\<close> alone does, with scale 1.28 if
  \<open>b\<close> and 1.0 otherwise.
\<close>

theorem setHover_after_expand:
  "setHover this b (expand this h) = setHover this b h \<and>
   scale (mesh_props (setHover this True (expand this h)) this) = Vector3 1.28 1.28 1.28 \<and>
   scale (mesh_props (setHover this False (expand this h)) this) = Vector3 1 1 1"
  by (simp add: mesh_props_def setHover_def expand_def Let_def setScalar_def upd_props_def)


section \<open>SceneManager: pick, labels and the nucleus\<close>

text \<open>
  C4. For every driver state and pointer position, if the ray of a press meets no Orb
  body and nothing attached to one, the handler leaves the heap (the state of every
  Orb), the Orb list and the trace of \<open>onSelect\<close> as they are: only the ray of the ray
  caster is set.
\<close>

theorem pick_miss_is_noop:
  "\<not> orb_hit lib s \<Longrightarrow>
   onPointerDown lib s = s\<lparr>raycaster := Some (pick_ray s)\<rparr> \<and>
   heap (onPointerDown lib s) = heap s \<and> orbs (onPointerDown lib s) = orbs s \<and>
   selected (onPointerDown lib s) = selected s"
  by (simp add: onPointerDown_def Let_def pick_empty_iff [symmetric])

theorem pick_miss_is_noop_witness:
  "\<not> orb_hit ex_lib_miss ex_session \<and>
   onPointerDown ex_lib_miss ex_session = ex_session\<lparr>raycaster := Some (pick_ray ex_session)\<rparr> \<and>
   heap (onPointerDown ex_lib_miss ex_session) = heap ex_session \<and>
   orbs (onPointerDown ex_lib_miss ex_session) = orbs ex_session \<and>
   selected (onPointerDown ex_lib_miss ex_session) = selected ex_session"
proof -
  have h: "\<not> orb_hit ex_lib_miss ex_session"
    by (simp add: orb_hit_def hits_def ex_lib_miss_def)
  from pick_miss_is_noop [OF h] h show ?thesis by simp
qed

text \<open>
  C5. In every state of a session, if the ray of a press meets an Orb body or glow
  shell, the handler takes the first intersection, which is at the smallest distance of
  all; the object hit is the mesh of exactly one Orb of the list or a child of it; the
  handler sets the scale of that Orb to 1.6 (\<open>expand\<close>) and calls \<open>onSelect\<close> with it.
\<close>

theorem pick_selects_nearest:
  assumes "reachable s" and "orb_hit lib s"
  shows "\<exists>i rest. pick lib s = i # rest \<and>
           (\<forall>ob'\<in>set (orbs s). \<forall>m\<in>set (nodes (cells (heap s) (mesh ob'))).
              \<forall>d\<in>set (hits lib s m). distance i \<le> d) \<and>
           (\<exists>ob\<in>set (orbs s).
              object i \<in> set (nodes (cells (heap s) (mesh ob))) \<and>
              distance i \<in> set (hits lib s (object i)) \<and>
              (mesh ob = obj_id (props (object i)) \<or> parent (props (object i)) = Some (mesh ob)) \<and>
              (\<forall>ob'\<in>set (orbs s).
                 (mesh ob' = obj_id (props (object i)) \<or> parent (props (object i)) = Some (mesh ob'))
                 \<longrightarrow> ob' = ob) \<and>
              onPointerDown lib s =
                s\<lparr>raycaster := Some (pick_ray s), heap := expand ob (heap s),
                  selected := selected s @ [ob]\<rparr> \<and>
              scale (mesh_props (heap (onPointerDown lib s)) ob) = Vector3 1.6 1.6 1.6)"
proof -
  from assms(1) have wf: "wf_scene s" by (simp add: reachable_invariants)
  from onPointerDown_selects [OF wf assms(2)] obtain i rest ob
    where p: "pick lib s = i # rest" and ob: "ob \<in> set (orbs s)"
      and m: "object i \<in> set (nodes (cells (heap s) (mesh ob)))"
      and d: "distance i \<in> set (hits lib s (object i))"
      and res: "onPointerDown lib s =
           s\<lparr>raycaster := Some (pick_ray s), heap := expand ob (heap s),
             selected := selected s @ [ob]\<rparr>"
    by blast
  note own = owner_unique [OF wf ob m]
  have near: "\<forall>ob'\<in>set (orbs s). \<forall>m\<in>set (nodes (cells (heap s) (mesh ob'))).
              \<forall>d\<in>set (hits lib s m). distance i \<le> d"
  proof (intro ballI)
    fix ob' m' d' assume "ob' \<in> set (orbs s)" "m' \<in> set (nodes (cells (heap s) (mesh ob')))"
      "d' \<in> set (hits lib s m')"
    hence "\<lparr>distance = d', object = m'\<rparr> \<in> set (pick lib s)" by (rule pick_complete)
    with pick_nearest [OF p] have "distance i \<le> distance \<lparr>distance = d', object = m'\<rparr>"
      by blast
    thus "distance i \<le> d'" by simp
  qed
  have sc: "scale (mesh_props (heap (onPointerDown lib s)) ob) = Vector3 1.6 1.6 1.6"
    by (simp add: res mesh_props_def expand_def setScalar_def)
  have "(mesh ob = obj_id (props (object i)) \<or> parent (props (object i)) = Some (mesh ob))"
    using own [OF ob] by simp
  moreover have "\<forall>ob'\<in>set (orbs s).
                 (mesh ob' = obj_id (props (object i)) \<or> parent (props (object i)) = Some (mesh ob'))
                 \<longrightarrow> ob' = ob"
    using own by simp
  ultimately show ?thesis
    using p near ob m d res sc by blast
qed

theorem pick_selects_nearest_witness:
  "reachable ex_session \<and> orb_hit ex_lib ex_session \<and>
   (\<exists>i rest. pick ex_lib ex_session = i # rest \<and>
      (\<exists>ob\<in>set (orbs ex_session).
         onPointerDown ex_lib ex_session =
           ex_session\<lparr>raycaster := Some (pick_ray ex_session),
                      heap := expand ob (heap ex_session),
                      selected := selected ex_session @ [ob]\<rparr> \<and>
         scale (mesh_props (heap (onPointerDown ex_lib ex_session)) ob) = Vector3 1.6 1.6 1.6))"
  using pick_selects_nearest [OF reachable_ex_session ex_orb_hit] reachable_ex_session ex_orb_hit
  by blast

text \<open>
  C8. In every state of a session the list of DOM labels and the list of Orbs have equal
  length, no label occurs twice, and the label at index \<open>i\<close> carries the text of the Orb
  at index \<open>i\<close>; \<open>addOrb\<close> appends exactly one Orb and exactly one new label, made for
  it; and every step of a session (adding an Orb or the nucleus, a frame, a resize, a
  pointer move or press) keeps both lists as prefixes, growing them by equally many.
\<close>

theorem labels_aligned:
  assumes "reachable s" and "step s s'"
  shows "length (domLabels s) = length (orbs s) \<and> distinct (domLabels s) \<and>
         (\<forall>i<length (orbs s). innerText (elements s (domLabels s ! i)) = label (orbs s ! i)) \<and>
         (\<exists>ob l. orbs (addOrb d r1 r2 s) = orbs s @ [ob] \<and> label ob = def_label d \<and>
            domLabels (addOrb d r1 r2 s) = domLabels s @ [l] \<and> l \<notin> set (domLabels s) \<and>
            innerText (elements (addOrb d r1 r2 s) l) = def_label d) \<and>
         (\<exists>obs ls. orbs s' = orbs s @ obs \<and> domLabels s' = domLabels s @ ls \<and>
            length obs = length ls)"
proof -
  from assms(1) have ok: "labels_ok s" by (simp add: reachable_invariants)
  hence len: "length (domLabels s) = length (orbs s)" by (rule labels_ok_length)
  from ok have dist: "distinct (domLabels s)" and lt: "\<forall>l\<in>set (domLabels s). l < next_el s"
    and al: "map (\<lambda>l. innerText (elements s l)) (domLabels s) = map label (orbs s)"
    by (simp_all add: labels_ok_def)
  have idx: "\<forall>i<length (orbs s). innerText (elements s (domLabels s ! i)) = label (orbs s ! i)"
  proof (intro allI impI)
    fix i assume i: "i < length (orbs s)"
    with len have "map (\<lambda>l. innerText (elements s l)) (domLabels s) ! i
                     = innerText (elements s (domLabels s ! i))" by simp
    moreover from i have "map label (orbs s) ! i = label (orbs s ! i)" by simp
    ultimately show "innerText (elements s (domLabels s ! i)) = label (orbs s ! i)"
      using al by simp
  qed
  from addOrb_fields(1) [of d r1 r2 s] obtain ob
    where ob: "orbs (addOrb d r1 r2 s) = orbs s @ [ob]" "label ob = def_label d" by blast
  from lt have fresh: "next_el s \<notin> set (domLabels s)" by auto
  have add: "\<exists>ob l. orbs (addOrb d r1 r2 s) = orbs s @ [ob] \<and> label ob = def_label d \<and>
            domLabels (addOrb d r1 r2 s) = domLabels s @ [l] \<and> l \<notin> set (domLabels s) \<and>
            innerText (elements (addOrb d r1 r2 s) l) = def_label d"
    using ob fresh addOrb_fields(2,4) [of d r1 r2 s] by (intro exI [of _ ob] exI [of _ "next_el s"]) simp
  from len dist idx add step_grows [OF assms(2)] show ?thesis by blast
qed

theorem labels_aligned_witness:
  "reachable ex_session \<and> step ex_session (onPointerDown ex_lib ex_session) \<and>
   length (domLabels ex_session) = length (orbs ex_session) \<and> distinct (domLabels ex_session) \<and>
   innerText (elements ex_session (domLabels ex_session ! 2)) = label (orbs ex_session ! 2) \<and>
   (\<exists>ob l. orbs (addOrb tasks_def (3/5) (5/8) ex_session) = orbs ex_session @ [ob] \<and>
      label ob = def_label tasks_def \<and>
      domLabels (addOrb tasks_def (3/5) (5/8) ex_session) = domLabels ex_session @ [l] \<and>
      l \<notin> set (domLabels ex_session) \<and>
      innerText (elements (addOrb tasks_def (3/5) (5/8) ex_session) l) = def_label tasks_def) \<and>
   (\<exists>obs ls. orbs (onPointerDown ex_lib ex_session) = orbs ex_session @ obs \<and>
      domLabels (onPointerDown ex_lib ex_session) = domLabels ex_session @ ls \<and>
      length obs = length ls)"
proof -
  have "length (map mesh (orbs ex_session)) = 6"
    by (simp only: ex_session_fields(1)) simp
  hence 2: "2 < length (orbs ex_session)" by simp
  note st = step_onPointerDown [of ex_session ex_lib]
  from labels_aligned [OF reachable_ex_session st, of tasks_def "3/5" "5/8"] 2
    reachable_ex_session st
  show ?thesis by simp
qed

text \<open>
  C10, as stated, fails: in the session the constructor builds, a press whose ray meets
  the nucleus first (distance 1) and the first Orb behind it (distances 2 and 3) calls
  \<open>onSelect\<close>: the nucleus is no obstacle to the pick.
\<close>

theorem nucleus_press_counterexample:
  "new_SceneManager ex_lib ex_window ex_rnds 0 = Inr ex_session \<and>
   is_nucleus ex_session 13 \<and>
   hits ex_lib ex_session (cells (heap ex_session) 13) = [1] \<and>
   selected (onPointerDown ex_lib ex_session) \<noteq> selected ex_session"
proof -
  have 1: "new_SceneManager ex_lib ex_window ex_rnds 0 = Inr ex_session"
    using ex_session_tick by (simp add: new_SceneManager_def ex_built_def)
  have 2: "hits ex_lib ex_session (cells (heap ex_session) 13) = [1]"
    using ex_nucleus(2) by (simp add: hits_def ex_lib_def)
  from reachable_ex_session have wf: "wf_scene ex_session" by (simp add: reachable_invariants)
  from onPointerDown_selects [OF wf ex_orb_hit] obtain ob where
    "onPointerDown ex_lib ex_session =
       ex_session\<lparr>raycaster := Some (pick_ray ex_session), heap := expand ob (heap ex_session),
                  selected := selected ex_session @ [ob]\<rparr>" by blast
  hence 3: "selected (onPointerDown ex_lib ex_session) \<noteq> selected ex_session" by simp
  from 1 2 3 ex_nucleus(1) show ?thesis by simp
qed

text \<open>
  C10, amended. The nucleus is never the object selected: \<open>onSelect\<close> is only ever
  called with a member of the Orb list; in every state of a session the outcome of a
  press does not depend on whether its ray meets the nucleus; and a press on the nucleus
  whose ray meets no Orb body or glow shell changes no Orb and calls nothing.
\<close>

theorem nucleus_not_selectable:
  "(selected (onPointerDown lib s) = selected s \<or>
      (\<exists>ob\<in>set (orbs s). selected (onPointerDown lib s) = selected s @ [ob])) \<and>
   (reachable s \<and> is_nucleus s n \<and>
      (\<forall>ray cs m. obj_id (props m) \<noteq> n \<longrightarrow> raycast lib' ray cs m = raycast lib ray cs m) \<longrightarrow>
      onPointerDown lib' s = onPointerDown lib s) \<and>
   (is_nucleus s n \<and> hits lib s (cells (heap s) n) \<noteq> [] \<and> \<not> orb_hit lib s \<longrightarrow>
      onPointerDown lib s = s\<lparr>raycaster := Some (pick_ray s)\<rparr> \<and>
      heap (onPointerDown lib s) = heap s \<and> selected (onPointerDown lib s) = selected s)"
proof (intro conjI impI)
  show "selected (onPointerDown lib s) = selected s \<or>
      (\<exists>ob\<in>set (orbs s). selected (onPointerDown lib s) = selected s @ [ob])"
    using onPointerDown_cases [of lib s] by auto
next
  assume a: "reachable s \<and> is_nucleus s n \<and>
      (\<forall>ray cs m. obj_id (props m) \<noteq> n \<longrightarrow> raycast lib' ray cs m = raycast lib ray cs m)"
  hence wf: "wf_scene s" and n: "is_nucleus s n" by (simp_all add: reachable_invariants)
  from a have eq: "\<And>ray cs m. obj_id (props m) \<noteq> n \<Longrightarrow>
      raycast lib' ray cs m = raycast lib ray cs m" by blast
  have "\<And>ob. ob \<in> set (orbs s) \<Longrightarrow>
          intersect (hits lib' s) True (cells (heap s) (mesh ob))
          = intersect (hits lib s) True (cells (heap s) (mesh ob))"
  proof (rule intersect_cong)
    fix ob m' assume "ob \<in> set (orbs s)" "m' \<in> set (nodes (cells (heap s) (mesh ob)))"
    from nucleus_not_under_orb [OF wf n this] show "hits lib' s m' = hits lib s m'"
      unfolding hits_def by (rule eq)
  qed
  hence "map (\<lambda>ob. intersect (hits lib' s) True (cells (heap s) (mesh ob))) (orbs s)
         = map (\<lambda>ob. intersect (hits lib s) True (cells (heap s) (mesh ob))) (orbs s)"
    by simp
  hence "pick lib' s = pick lib s"
    by (simp only: pick_def intersectObjects_def hits_def [abs_def] map_map comp_def)
  thus "onPointerDown lib' s = onPointerDown lib s" by (rule onPointerDown_pick_cong)
next
  assume "is_nucleus s n \<and> hits lib s (cells (heap s) n) \<noteq> [] \<and> \<not> orb_hit lib s"
  hence "pick lib s = []" by (simp add: pick_empty_iff)
  thus "onPointerDown lib s = s\<lparr>raycaster := Some (pick_ray s)\<rparr>"
    "heap (onPointerDown lib s) = heap s" "selected (onPointerDown lib s) = selected s"
    by (simp_all add: onPointerDown_def Let_def)
qed

theorem nucleus_not_selectable_witness:
  "reachable ex_session \<and> is_nucleus ex_session 13 \<and>
   hits ex_lib_nucleus ex_session (cells (heap ex_session) 13) \<noteq> [] \<and>
   \<not> orb_hit ex_lib_nucleus ex_session \<and>
   onPointerDown ex_lib_miss ex_session = onPointerDown ex_lib_nucleus ex_session \<and>
   onPointerDown ex_lib_nucleus ex_session
     = ex_session\<lparr>raycaster := Some (pick_ray ex_session)\<rparr> \<and>
   selected (onPointerDown ex_lib_nucleus ex_session) = selected ex_session"
proof -
  have 1: "\<forall>ray cs m. obj_id (props m) \<noteq> 13 \<longrightarrow>
      raycast ex_lib_miss ray cs m = raycast ex_lib_nucleus ray cs m"
    by (simp add: ex_lib_miss_def ex_lib_nucleus_def)
  have 2: "hits ex_lib_nucleus ex_session (cells (heap ex_session) 13) \<noteq> []"
    using ex_nucleus(2) by (simp add: hits_def ex_lib_nucleus_def)
  from nucleus_not_selectable [of ex_lib_nucleus ex_session 13 ex_lib_miss]
    1 2 reachable_ex_session ex_nucleus(1) ex_nucleus_only
  show ?thesis by simp
qed

end
